theory Spec2Isabelle
  imports Main "HOL-Library.Multiset"
begin

section \<open>Data model (internal/models, pkg/database/db.go)\<close>

text \<open>
  Go's \<open>time.Time\<close> values and SQLite's \<open>CURRENT_TIMESTAMP\<close> are read as a number of
  seconds. A Go \<open>error\<close> is its message text; the \<open>nil\<close> error is \<open>None\<close>.
  Identifiers are Go \<open>int\<close>s; a nullable pointer (\<open>*int\<close>) is an \<open>option\<close>.
\<close>

type_synonym time = int
type_synonym error = string

text \<open>Row of the \<open>users\<close> table (columns of the schema in \<open>InitializeSchema\<close>).\<close>

record User =
  u_ID :: int
  u_Username :: string
  u_Email :: string
  u_Password :: string
  u_CreatedAt :: time
  u_UpdatedAt :: time

record Post =
  p_ID :: int
  p_Title :: string
  p_Content :: string
  p_AuthorID :: int
  p_SubredditID :: int
  p_Karma :: int
  p_CreatedAt :: time
  p_UpdatedAt :: time

record Comment =
  c_ID :: int
  c_Content :: string
  c_AuthorID :: int
  c_PostID :: int
  c_ParentID :: "int option"
  c_Karma :: int
  c_CreatedAt :: time
  c_UpdatedAt :: time

record Vote =
  v_ID :: int
  v_UserID :: int
  v_PostID :: "int option"
  v_CommentID :: "int option"
  v_VoteType :: string
  v_CreatedAt :: time
  v_UpdatedAt :: time

record Message =
  m_ID :: int
  m_SenderID :: int
  m_ReceiverID :: int
  m_Content :: string
  m_ParentID :: "int option"
  m_CreatedAt :: time
  m_UpdatedAt :: time

text \<open>
  The database behind \<open>*sql.DB\<close>: one list of rows per table, in rowid order, the
  \<open>AUTOINCREMENT\<close> counters of the tables the services insert into, and the value
  \<open>CURRENT_TIMESTAMP\<close> yields. All repository methods run under the one mutex
  \<open>database.DBMu\<close>; the model is sequential.
\<close>

record store =
  users :: "User list"
  posts :: "Post list"
  comments :: "Comment list"
  votes :: "Vote list"
  messages :: "Message list"
  comment_seq :: int
  vote_seq :: int
  message_seq :: int
  clock :: time

text \<open>A call that dereferences a nil pointer panics instead of returning.\<close>

datatype 'a go = Panics | Returns 'a

text \<open>A vote target of the specification: a post or a comment, by id.\<close>

datatype Target = PostTarget int | CommentTarget int

section \<open>SQLite behaviour used by the queries\<close>

text \<open>
  \<open>INTEGER PRIMARY KEY AUTOINCREMENT\<close>: the new id is one more than the largest id the
  table has ever held.
\<close>

definition autoincrement :: "int \<Rightarrow> int list \<Rightarrow> int" where
  "autoincrement seq ids = fold max ids seq + 1"

text \<open>
  Message texts of the database driver and of \<open>sql.ErrNoRows\<close>. The services never
  inspect the driver's constraint messages; they are only wrapped and passed on.
\<close>

definition sql_ErrNoRows :: error where
  "sql_ErrNoRows = ''sql: no rows in result set''"

definition sqlite_check_failed :: error where
  "sqlite_check_failed = ''constraint failed: CHECK constraint failed''"

definition sqlite_unique_failed :: error where
  "sqlite_unique_failed = ''constraint failed: UNIQUE constraint failed''"

definition sqlite_foreign_key_failed :: error where
  "sqlite_foreign_key_failed = ''constraint failed: FOREIGN KEY constraint failed''"

text \<open>Foreign keys (\<open>PRAGMA foreign_keys = ON\<close>); a NULL reference is always accepted.\<close>

definition references_user :: "store \<Rightarrow> int \<Rightarrow> bool" where
  "references_user s i = list_ex (\<lambda>u. u_ID u = i) (users s)"

definition references_post :: "store \<Rightarrow> int \<Rightarrow> bool" where
  "references_post s i = list_ex (\<lambda>p. p_ID p = i) (posts s)"

definition references_comment :: "store \<Rightarrow> int \<Rightarrow> bool" where
  "references_comment s i = list_ex (\<lambda>c. c_ID c = i) (comments s)"

definition references_message :: "store \<Rightarrow> int \<Rightarrow> bool" where
  "references_message s i = list_ex (\<lambda>m. m_ID m = i) (messages s)"

definition nullable :: "(int \<Rightarrow> bool) \<Rightarrow> int option \<Rightarrow> bool" where
  "nullable ref x = (case x of None \<Rightarrow> True | Some i \<Rightarrow> ref i)"

text \<open>\<open>CHECK (vote_type IN ('upvote', 'downvote'))\<close> of the \<open>votes\<close> table.\<close>

definition check_vote_type :: "string \<Rightarrow> bool" where
  "check_vote_type t = (t = ''upvote'' \<or> t = ''downvote'')"

text \<open>
  \<open>UNIQUE(user_id, post_id, comment_id)\<close>: SQLite treats NULLs as distinct, so only a
  row with both references set can collide.
\<close>

definition unique_vote_violated :: "store \<Rightarrow> Vote \<Rightarrow> bool" where
  "unique_vote_violated s vote =
     (v_PostID vote \<noteq> None \<and> v_CommentID vote \<noteq> None \<and>
      list_ex (\<lambda>r. v_UserID r = v_UserID vote \<and> v_PostID r = v_PostID vote \<and>
                    v_CommentID r = v_CommentID vote) (votes s))"

text \<open>\<open>LIMIT l OFFSET o\<close>: a negative limit means no limit, a negative offset is 0.\<close>

definition limit_offset :: "int \<Rightarrow> int \<Rightarrow> 'a list \<Rightarrow> 'a list" where
  "limit_offset l off xs =
     (let ys = drop (nat off) xs in if l < 0 then ys else take (nat l) ys)"

section \<open>Repositories (internal/repository)\<close>

subsection \<open>userRepository\<close>

definition userRepository_GetUserByID :: "store \<Rightarrow> int \<Rightarrow> error + User" where
  "userRepository_GetUserByID s i =
     (case find (\<lambda>u. u_ID u = i) (users s) of
        None \<Rightarrow> Inl ''GetUserByID: user not found''
      | Some u \<Rightarrow> Inr u)"

subsection \<open>voteRepository\<close>

definition voteRepository_CreateVote :: "store \<Rightarrow> Vote \<Rightarrow> error option \<times> Vote \<times> store" where
  "voteRepository_CreateVote s vote =
     (if \<not> check_vote_type (v_VoteType vote) then
        (Some (''CreateVote: '' @ sqlite_check_failed), vote, s)
      else if unique_vote_violated s vote then
        (Some (''CreateVote: '' @ sqlite_unique_failed), vote, s)
      else if \<not> (references_user s (v_UserID vote) \<and>
                  nullable (references_post s) (v_PostID vote) \<and>
                  nullable (references_comment s) (v_CommentID vote)) then
        (Some (''CreateVote: '' @ sqlite_foreign_key_failed), vote, s)
      else
        (let i = autoincrement (vote_seq s) (map v_ID (votes s));
             row = vote\<lparr>v_ID := i, v_CreatedAt := clock s, v_UpdatedAt := clock s\<rparr>
         in (None, row, s\<lparr>votes := votes s @ [row], vote_seq := i\<rparr>)))"

definition voteRepository_GetVoteByUserAndPost :: "store \<Rightarrow> int \<Rightarrow> int \<Rightarrow> error + Vote" where
  "voteRepository_GetVoteByUserAndPost s userID postID =
     (case find (\<lambda>r. v_UserID r = userID \<and> v_PostID r = Some postID \<and> v_CommentID r = None)
                (votes s) of
        None \<Rightarrow> Inl ''GetVoteByUserAndPost: vote not found''
      | Some r \<Rightarrow> Inr r)"

definition voteRepository_GetVoteByUserAndComment :: "store \<Rightarrow> int \<Rightarrow> int \<Rightarrow> error + Vote" where
  "voteRepository_GetVoteByUserAndComment s userID commentID =
     (case find (\<lambda>r. v_UserID r = userID \<and> v_CommentID r = Some commentID \<and> v_PostID r = None)
                (votes s) of
        None \<Rightarrow> Inl ''GetVoteByUserAndComment: vote not found''
      | Some r \<Rightarrow> Inr r)"

definition voteRepository_UpdateVote :: "store \<Rightarrow> Vote \<Rightarrow> error option \<times> Vote \<times> store" where
  "voteRepository_UpdateVote s vote =
     (if \<not> list_ex (\<lambda>r. v_ID r = v_ID vote) (votes s) then
        (Some (''UpdateVote: '' @ sql_ErrNoRows), vote, s)
      else if \<not> check_vote_type (v_VoteType vote) then
        (Some (''UpdateVote: '' @ sqlite_check_failed), vote, s)
      else
        (None, vote\<lparr>v_UpdatedAt := clock s\<rparr>,
         s\<lparr>votes := map (\<lambda>r. if v_ID r = v_ID vote
                               then r\<lparr>v_VoteType := v_VoteType vote, v_UpdatedAt := clock s\<rparr>
                               else r) (votes s)\<rparr>))"

definition voteRepository_DeleteVote :: "store \<Rightarrow> Vote \<Rightarrow> error option \<times> store" where
  "voteRepository_DeleteVote s vote =
     (if \<not> list_ex (\<lambda>r. v_ID r = v_ID vote) (votes s) then
        (Some ''DeleteVote: no vote found to delete'', s)
      else (None, s\<lparr>votes := filter (\<lambda>r. v_ID r \<noteq> v_ID vote) (votes s)\<rparr>))"

subsection \<open>postRepository\<close>

definition postRepository_GetPostByID :: "store \<Rightarrow> int \<Rightarrow> error + Post" where
  "postRepository_GetPostByID s i =
     (case find (\<lambda>p. p_ID p = i) (posts s) of
        None \<Rightarrow> Inl ''GetPostByID: post not found''
      | Some p \<Rightarrow> Inr p)"

text \<open>
  \<open>UPDATE posts SET title = $1, content = $2, updated_at = CURRENT_TIMESTAMP WHERE id = $3\<close>:
  the statement names no \<open>karma\<close> column.
\<close>

definition postRepository_UpdatePost :: "store \<Rightarrow> Post \<Rightarrow> error option \<times> Post \<times> store" where
  "postRepository_UpdatePost s post =
     (if \<not> list_ex (\<lambda>r. p_ID r = p_ID post) (posts s) then
        (Some (''UpdatePost: '' @ sql_ErrNoRows), post, s)
      else
        (None, post\<lparr>p_UpdatedAt := clock s\<rparr>,
         s\<lparr>posts := map (\<lambda>r. if p_ID r = p_ID post
                               then r\<lparr>p_Title := p_Title post, p_Content := p_Content post,
                                      p_UpdatedAt := clock s\<rparr>
                               else r) (posts s)\<rparr>))"

subsection \<open>commentRepository\<close>

text \<open>
  \<open>CreateComment\<close> inserts with \<open>karma\<close> 0 and scans only id and timestamps back into
  the caller's struct.
\<close>

definition commentRepository_CreateComment ::
  "store \<Rightarrow> Comment \<Rightarrow> error option \<times> Comment \<times> store" where
  "commentRepository_CreateComment s comment =
     (if \<not> (references_user s (c_AuthorID comment) \<and>
             references_post s (c_PostID comment) \<and>
             nullable (references_comment s) (c_ParentID comment)) then
        (Some (''CreateComment: '' @ sqlite_foreign_key_failed), comment, s)
      else
        (let i = autoincrement (comment_seq s) (map c_ID (comments s));
             row = \<lparr>c_ID = i, c_Content = c_Content comment, c_AuthorID = c_AuthorID comment,
                    c_PostID = c_PostID comment, c_ParentID = c_ParentID comment,
                    c_Karma = 0, c_CreatedAt = clock s, c_UpdatedAt = clock s\<rparr>
         in (None, comment\<lparr>c_ID := i, c_CreatedAt := clock s, c_UpdatedAt := clock s\<rparr>,
             s\<lparr>comments := comments s @ [row], comment_seq := i\<rparr>)))"

definition commentRepository_GetCommentByID :: "store \<Rightarrow> int \<Rightarrow> error + Comment" where
  "commentRepository_GetCommentByID s i =
     (case find (\<lambda>c. c_ID c = i) (comments s) of
        None \<Rightarrow> Inl ''GetCommentByID: comment not found''
      | Some c \<Rightarrow> Inr c)"

text \<open>
  \<open>UPDATE comments SET content = $1, updated_at = CURRENT_TIMESTAMP WHERE id = $2\<close>:
  again no \<open>karma\<close> column.
\<close>

definition commentRepository_UpdateComment ::
  "store \<Rightarrow> Comment \<Rightarrow> error option \<times> Comment \<times> store" where
  "commentRepository_UpdateComment s comment =
     (if \<not> list_ex (\<lambda>r. c_ID r = c_ID comment) (comments s) then
        (Some (''UpdateComment: '' @ sql_ErrNoRows), comment, s)
      else
        (None, comment\<lparr>c_UpdatedAt := clock s\<rparr>,
         s\<lparr>comments := map (\<lambda>r. if c_ID r = c_ID comment
                                  then r\<lparr>c_Content := c_Content comment, c_UpdatedAt := clock s\<rparr>
                                  else r) (comments s)\<rparr>))"

section \<open>voteService (internal/service/vote_service.go)\<close>

text \<open>Go's \<open>int\<close> is 64 bits wide on the supported platforms; \<open>+=\<close> wraps.\<close>

definition int64 :: "int \<Rightarrow> int" where
  "int64 x = (x + 2 ^ 63) mod 2 ^ 64 - 2 ^ 63"

definition voteService_UpdateKarma :: "store \<Rightarrow> string \<Rightarrow> int \<Rightarrow> int \<Rightarrow> error option \<times> store" where
  "voteService_UpdateKarma s targetType targetID delta =
     (if targetType = ''post'' then
        (case postRepository_GetPostByID s targetID of
           Inl err \<Rightarrow> (Some err, s)
         | Inr post \<Rightarrow>
             (case postRepository_UpdatePost s (post\<lparr>p_Karma := int64 (p_Karma post + delta)\<rparr>) of
                (err, _, s') \<Rightarrow> (err, s')))
      else if targetType = ''comment'' then
        (case commentRepository_GetCommentByID s targetID of
           Inl err \<Rightarrow> (Some err, s)
         | Inr comment \<Rightarrow>
             (case commentRepository_UpdateComment s
                     (comment\<lparr>c_Karma := int64 (c_Karma comment + delta)\<rparr>) of
                (err, _, s') \<Rightarrow> (err, s')))
      else (Some ''UpdateKarma: invalid target type'', s))"

text \<open>The target check shared by \<open>CastVote\<close> and \<open>ChangeVote\<close>.\<close>

definition invalid_target :: "Vote \<Rightarrow> bool" where
  "invalid_target vote =
     ((v_PostID vote = None \<and> v_CommentID vote = None) \<or>
      (v_PostID vote \<noteq> None \<and> v_CommentID vote \<noteq> None))"

text \<open>
  The lookup of the caller's existing vote, by post when \<open>PostID\<close> is set. The
  dereference \<open>*vote.CommentID\<close> is reached only after the target check has excluded
  the vote without any target (lemma \<open>valid_target_deref\<close> below).
\<close>

definition existing_vote :: "store \<Rightarrow> Vote \<Rightarrow> error + Vote" where
  "existing_vote s vote =
     (case v_PostID vote of
        Some p \<Rightarrow> voteRepository_GetVoteByUserAndPost s (v_UserID vote) p
      | None \<Rightarrow> voteRepository_GetVoteByUserAndComment s (v_UserID vote) (the (v_CommentID vote)))"

text \<open>The karma update on the vote's target, by post when \<open>PostID\<close> is set.\<close>

definition update_target_karma :: "store \<Rightarrow> Vote \<Rightarrow> int \<Rightarrow> error option \<times> store" where
  "update_target_karma s vote delta =
     (case v_PostID vote of
        Some p \<Rightarrow> voteService_UpdateKarma s ''post'' p delta
      | None \<Rightarrow> voteService_UpdateKarma s ''comment'' (the (v_CommentID vote)) delta)"

definition CastVote_delta :: "Vote \<Rightarrow> int" where
  "CastVote_delta vote = (if v_VoteType vote = ''upvote'' then 1 else -1)"

definition voteService_CastVote :: "store \<Rightarrow> Vote \<Rightarrow> error option \<times> Vote \<times> store" where
  "voteService_CastVote s vote =
     (if invalid_target vote then
        (Some ''CastVote: vote must be on either a post or a comment'', vote, s)
      else
        (case existing_vote s vote of
           Inr existingVote \<Rightarrow> (Some ''CastVote: user has already voted on this target'', vote, s)
         | Inl err \<Rightarrow>
             if err \<noteq> ''GetVoteByUserAndPost: vote not found'' \<and>
                err \<noteq> ''GetVoteByUserAndComment: vote not found''
             then (Some (''CastVote: '' @ err), vote, s)
             else
               (case voteRepository_CreateVote s vote of
                  (Some err, vote', s') \<Rightarrow> (Some err, vote', s')
                | (None, vote', s') \<Rightarrow>
                    (case update_target_karma s' vote' (CastVote_delta vote') of
                       (err, s'') \<Rightarrow> (err, vote', s'')))))"

definition ChangeVote_delta :: "Vote \<Rightarrow> int" where
  "ChangeVote_delta vote = (if v_VoteType vote = ''upvote'' then 2 else -2)"

definition voteService_ChangeVote :: "store \<Rightarrow> Vote \<Rightarrow> error option \<times> store" where
  "voteService_ChangeVote s vote =
     (if v_VoteType vote \<noteq> ''upvote'' \<and> v_VoteType vote \<noteq> ''downvote'' then
        (Some ''ChangeVote: invalid vote type'', s)
      else if invalid_target vote then
        (Some ''ChangeVote: vote must be on either a post or a comment'', s)
      else
        (case existing_vote s vote of
           Inl err \<Rightarrow> (Some (''ChangeVote: '' @ err), s)
         | Inr existingVote \<Rightarrow>
             if v_VoteType existingVote = v_VoteType vote then
               (Some ''ChangeVote: vote type is already set to the desired value'', s)
             else
               (case voteRepository_UpdateVote s (existingVote\<lparr>v_VoteType := v_VoteType vote\<rparr>) of
                  (Some err, _, s') \<Rightarrow> (Some err, s')
                | (None, _, s') \<Rightarrow> update_target_karma s' vote (ChangeVote_delta vote))))"

definition RemoveVote_delta :: "Vote \<Rightarrow> int" where
  "RemoveVote_delta existingVote = (if v_VoteType existingVote = ''upvote'' then -1 else 1)"

definition voteService_RemoveVote :: "store \<Rightarrow> int \<Rightarrow> int \<Rightarrow> int \<Rightarrow> error option \<times> store" where
  "voteService_RemoveVote s userID postID commentID =
     (case (if postID \<noteq> 0 then voteRepository_GetVoteByUserAndPost s userID postID
            else voteRepository_GetVoteByUserAndComment s userID commentID) of
        Inl err \<Rightarrow> (Some (''RemoveVote: '' @ err), s)
      | Inr existingVote \<Rightarrow>
          (case voteRepository_DeleteVote s existingVote of
             (Some err, s') \<Rightarrow> (Some err, s')
           | (None, s') \<Rightarrow>
               (case v_PostID existingVote of
                  Some p \<Rightarrow> voteService_UpdateKarma s' ''post'' p (RemoveVote_delta existingVote)
                | None \<Rightarrow>
                    (case v_CommentID existingVote of
                       Some c \<Rightarrow>
                         voteService_UpdateKarma s' ''comment'' c (RemoveVote_delta existingVote)
                     | None \<Rightarrow> (Some ''RemoveVote: invalid vote target'', s')))))"

section \<open>commentService (internal/service/comment_service.go)\<close>

definition commentService_ReplyToComment ::
  "store \<Rightarrow> Comment \<Rightarrow> (error option \<times> Comment \<times> store) go" where
  "commentService_ReplyToComment s comment =
     (if c_Content comment = [] then
        Returns (Some ''ReplyToComment: content is required'', comment, s)
      else
        (case userRepository_GetUserByID s (c_AuthorID comment) of
           Inl err \<Rightarrow> Returns (Some ''ReplyToComment: author does not exist'', comment, s)
         | Inr author \<Rightarrow>
             (case c_ParentID comment of
                None \<Rightarrow> Panics
              | Some parentID \<Rightarrow>
                  (case commentRepository_GetCommentByID s parentID of
                     Inl err \<Rightarrow>
                       Returns (Some ''ReplyToComment: parent comment does not exist'', comment, s)
                   | Inr parentComment \<Rightarrow>
                       Returns (commentRepository_CreateComment s
                                  (comment\<lparr>c_PostID := c_PostID parentComment\<rparr>))))))"

text \<open>
  \<open>SELECT ... FROM comments WHERE parent_id = $1 ORDER BY created_at ASC LIMIT $2 OFFSET $3\<close>.
  \<open>ORDER BY\<close> fixes the order of the selected rows only up to rows with equal keys: the
  engine may hand back any arrangement \<open>ordered\<close> of the selected rows that is sorted on
  the key. \<open>order_by_asc key rows ordered\<close> says that \<open>ordered\<close> is such an arrangement.
\<close>

definition order_by_asc :: "('a \<Rightarrow> time) \<Rightarrow> 'a list \<Rightarrow> 'a list \<Rightarrow> bool" where
  "order_by_asc key rows ordered = (mset ordered = mset rows \<and> sorted (map key ordered))"

text \<open>
  \<open>commentRepository_GetReplies s parentID limit offset ordered replies\<close>: the call
  \<open>GetReplies(parentID, limit, offset)\<close> on store \<open>s\<close> returns \<open>replies\<close> when the engine
  arranges the selected rows as \<open>ordered\<close>.
\<close>

definition commentRepository_GetReplies ::
  "store \<Rightarrow> int \<Rightarrow> int \<Rightarrow> int \<Rightarrow> Comment list \<Rightarrow> Comment list \<Rightarrow> bool" where
  "commentRepository_GetReplies s parentID limit offset ordered replies =
     (order_by_asc c_CreatedAt (filter (\<lambda>c. c_ParentID c = Some parentID) (comments s)) ordered \<and>
      replies = limit_offset limit offset ordered)"

section \<open>messageRepository and messageService\<close>

definition messageRepository_SendMessage ::
  "store \<Rightarrow> Message \<Rightarrow> error option \<times> Message \<times> store" where
  "messageRepository_SendMessage s message =
     (if \<not> (references_user s (m_SenderID message) \<and>
             references_user s (m_ReceiverID message) \<and>
             nullable (references_message s) (m_ParentID message)) then
        (Some (''SendMessage: '' @ sqlite_foreign_key_failed), message, s)
      else
        (let i = autoincrement (message_seq s) (map m_ID (messages s));
             row = message\<lparr>m_ID := i, m_CreatedAt := clock s, m_UpdatedAt := clock s\<rparr>
         in (None, row, s\<lparr>messages := messages s @ [row], message_seq := i\<rparr>)))"

definition messageRepository_GetMessageByID :: "store \<Rightarrow> int \<Rightarrow> error + Message" where
  "messageRepository_GetMessageByID s i =
     (case find (\<lambda>m. m_ID m = i) (messages s) of
        None \<Rightarrow> Inl ''GetMessageByID: message not found''
      | Some m \<Rightarrow> Inr m)"

definition messageRepository_GetReplies ::
  "store \<Rightarrow> int \<Rightarrow> int \<Rightarrow> int \<Rightarrow> Message list \<Rightarrow> Message list \<Rightarrow> bool" where
  "messageRepository_GetReplies s parentID limit offset ordered replies =
     (order_by_asc m_CreatedAt (filter (\<lambda>m. m_ParentID m = Some parentID) (messages s)) ordered \<and>
      replies = limit_offset limit offset ordered)"

definition messageService_SendMessage ::
  "store \<Rightarrow> Message \<Rightarrow> error option \<times> Message \<times> store" where
  "messageService_SendMessage s message =
     (if m_Content message = [] then
        (Some ''SendMessage: content is required'', message, s)
      else if m_SenderID message = m_ReceiverID message then
        (Some ''SendMessage: sender and receiver cannot be the same'', message, s)
      else
        (case userRepository_GetUserByID s (m_SenderID message) of
           Inl err \<Rightarrow> (Some ''SendMessage: sender does not exist'', message, s)
         | Inr sender \<Rightarrow>
             (case userRepository_GetUserByID s (m_ReceiverID message) of
                Inl err \<Rightarrow> (Some ''SendMessage: receiver does not exist'', message, s)
              | Inr receiver \<Rightarrow> messageRepository_SendMessage s message)))"

definition messageService_ReplyToMessage ::
  "store \<Rightarrow> Message \<Rightarrow> (error option \<times> Message \<times> store) go" where
  "messageService_ReplyToMessage s message =
     (if m_Content message = [] then
        Returns (Some ''ReplyToMessage: content is required'', message, s)
      else if m_SenderID message = m_ReceiverID message then
        Returns (Some ''ReplyToMessage: sender and receiver cannot be the same'', message, s)
      else
        (case userRepository_GetUserByID s (m_SenderID message) of
           Inl err \<Rightarrow> Returns (Some ''ReplyToMessage: sender does not exist'', message, s)
         | Inr sender \<Rightarrow>
             (case m_ParentID message of
                None \<Rightarrow> Panics
              | Some parentID \<Rightarrow>
                  (case messageRepository_GetMessageByID s parentID of
                     Inl err \<Rightarrow>
                       Returns (Some ''ReplyToMessage: parent message does not exist'', message, s)
                   | Inr parentMessage \<Rightarrow>
                       Returns (messageRepository_SendMessage s
                                  (message\<lparr>m_ReceiverID := m_SenderID parentMessage\<rparr>))))))"

section \<open>Notions of the specification\<close>

text \<open>The karma column of a target's row, if the row exists.\<close>

definition stored_karma :: "store \<Rightarrow> Target \<Rightarrow> int option" where
  "stored_karma s t =
     (case t of
        PostTarget p \<Rightarrow> map_option p_Karma (find (\<lambda>r. p_ID r = p) (posts s))
      | CommentTarget c \<Rightarrow> map_option c_Karma (find (\<lambda>r. c_ID r = c) (comments s)))"

text \<open>The target a vote row identifies, when it references exactly one of post and comment.\<close>

definition vote_target :: "Vote \<Rightarrow> Target option" where
  "vote_target vote =
     (case v_PostID vote of
        Some p \<Rightarrow> (case v_CommentID vote of None \<Rightarrow> Some (PostTarget p) | Some c \<Rightarrow> None)
      | None \<Rightarrow> (case v_CommentID vote of None \<Rightarrow> None | Some c \<Rightarrow> Some (CommentTarget c)))"

text \<open>The live votes of user \<open>u\<close> on target \<open>t\<close>: the rows the two lookups select from.\<close>

definition live_votes :: "store \<Rightarrow> int \<Rightarrow> Target \<Rightarrow> Vote list" where
  "live_votes s u t = filter (\<lambda>r. v_UserID r = u \<and> vote_target r = Some t) (votes s)"

text \<open>
  At most one live vote per (user, target): the rows with a target have pairwise
  different (user, target) keys.
\<close>

definition vote_key :: "Vote \<Rightarrow> int \<times> Target option" where
  "vote_key r = (v_UserID r, vote_target r)"

definition single_vote :: "store \<Rightarrow> bool" where
  "single_vote s = distinct (map vote_key (filter (\<lambda>r. \<not> invalid_target r) (votes s)))"

text \<open>The specification's vote value: +1 for an upvote, -1 for a downvote.\<close>

definition vote_value :: "string \<Rightarrow> int" where
  "vote_value t = (if t = ''upvote'' then 1 else -1)"

text \<open>
  An input vote of user \<open>u\<close> on target \<open>t\<close> with vote type \<open>ty\<close>, as the handlers decode
  it: id and timestamps are Go's zero values.
\<close>

definition vote_on :: "int \<Rightarrow> Target \<Rightarrow> string \<Rightarrow> Vote" where
  "vote_on u t ty =
     \<lparr>v_ID = 0, v_UserID = u,
      v_PostID = (case t of PostTarget p \<Rightarrow> Some p | CommentTarget c \<Rightarrow> None),
      v_CommentID = (case t of PostTarget p \<Rightarrow> None | CommentTarget c \<Rightarrow> Some c),
      v_VoteType = ty, v_CreatedAt = 0, v_UpdatedAt = 0\<rparr>"

text \<open>
  Removing the vote of user \<open>u\<close> on target \<open>t\<close>, as \<open>VoteHandler.RemoveVote\<close> calls the
  service: \<open>RemoveVote(u, p, 0)\<close> for a post, \<open>RemoveVote(u, 0, c)\<close> for a comment.
\<close>

definition RemoveVote_on :: "store \<Rightarrow> int \<Rightarrow> Target \<Rightarrow> error option \<times> store" where
  "RemoveVote_on s u t =
     (case t of
        PostTarget p \<Rightarrow> voteService_RemoveVote s u p 0
      | CommentTarget c \<Rightarrow> voteService_RemoveVote s u 0 c)"

text \<open>The row of a target exists in its table.\<close>

definition target_exists :: "store \<Rightarrow> Target \<Rightarrow> bool" where
  "target_exists s t =
     (case t of PostTarget p \<Rightarrow> references_post s p | CommentTarget c \<Rightarrow> references_comment s c)"

text \<open>The arguments \<open>targetType\<close> and \<open>targetID\<close> under which \<open>UpdateKarma\<close> is called for a target.\<close>

definition target_type :: "Target \<Rightarrow> string" where
  "target_type t = (case t of PostTarget p \<Rightarrow> ''post'' | CommentTarget c \<Rightarrow> ''comment'')"

definition target_id :: "Target \<Rightarrow> int" where
  "target_id t = (case t of PostTarget p \<Rightarrow> p | CommentTarget c \<Rightarrow> c)"

text \<open>Sequences of vote operations.\<close>

datatype vote_op = Cast Vote | Change Vote | Remove int int int

fun run_vote_op :: "store \<Rightarrow> vote_op \<Rightarrow> store" where
  "run_vote_op s (Cast vote) = snd (snd (voteService_CastVote s vote))"
| "run_vote_op s (Change vote) = snd (voteService_ChangeVote s vote)"
| "run_vote_op s (Remove userID postID commentID) =
     snd (voteService_RemoveVote s userID postID commentID)"

text \<open>The order the specification asks of \<open>ListReplies\<close>: oldest first, ties by ascending id.\<close>

definition oldest_first_then_id :: "('a \<Rightarrow> time) \<Rightarrow> ('a \<Rightarrow> int) \<Rightarrow> 'a list \<Rightarrow> bool" where
  "oldest_first_then_id created ident rows =
     sorted_wrt (\<lambda>a b. created a < created b \<or> (created a = created b \<and> ident a \<le> ident b)) rows"

section \<open>Example stores\<close>

definition example_user :: "int \<Rightarrow> User" where
  "example_user i = \<lparr>u_ID = i, u_Username = ''user'', u_Email = ''mail'', u_Password = ''pw'',
                      u_CreatedAt = 0, u_UpdatedAt = 0\<rparr>"

definition example_post :: "int \<Rightarrow> Post" where
  "example_post i = \<lparr>p_ID = i, p_Title = ''title'', p_Content = ''text'', p_AuthorID = 1,
                      p_SubredditID = 1, p_Karma = 0, p_CreatedAt = 0, p_UpdatedAt = 0\<rparr>"

text \<open>Users A (id 1) and B (id 2), one post (id 1) with karma 0, no votes.\<close>

definition scenario_store :: store where
  "scenario_store = \<lparr>users = [example_user 1, example_user 2], posts = [example_post 1],
                      comments = [], votes = [], messages = [],
                      comment_seq = 0, vote_seq = 0, message_seq = 0, clock = 100\<rparr>"

text \<open>The scenario's store after A's upvote on post 1 has been cast at time 100.\<close>

definition voted_store :: store where
  "voted_store =
     scenario_store\<lparr>votes := [(vote_on 1 (PostTarget 1) ''upvote'')
                                 \<lparr>v_ID := 1, v_CreatedAt := 100, v_UpdatedAt := 100\<rparr>],
                     vote_seq := 1\<rparr>"

text \<open>
  A store in which user 1's vote refers to post 1 but the \<open>posts\<close> table has no such row
  (the foreign-key pragma is a per-connection setting; the model does not restrict
  stores to referentially intact ones).
\<close>

definition orphan_vote_store :: store where
  "orphan_vote_store = voted_store\<lparr>posts := []\<rparr>"

text \<open>
  Comment 1 on post 1 with two replies, comments 2 and 3, created in the same second
  (\<open>CURRENT_TIMESTAMP\<close> has a resolution of one second).
\<close>

definition example_comment :: "int \<Rightarrow> int option \<Rightarrow> time \<Rightarrow> Comment" where
  "example_comment i parent created =
     \<lparr>c_ID = i, c_Content = ''text'', c_AuthorID = 1, c_PostID = 1, c_ParentID = parent,
      c_Karma = 0, c_CreatedAt = created, c_UpdatedAt = created\<rparr>"

definition thread_store :: store where
  "thread_store =
     scenario_store\<lparr>comments := [example_comment 1 None 100, example_comment 2 (Some 1) 200,
                                   example_comment 3 (Some 1) 200],
                     comment_seq := 3, clock := 300\<rparr>"

text \<open>Message 1 from user 1 to user 2, with a reply (message 2) from user 2.\<close>

definition example_message :: "int \<Rightarrow> int \<Rightarrow> int \<Rightarrow> int option \<Rightarrow> time \<Rightarrow> Message" where
  "example_message i sender receiver parent created =
     \<lparr>m_ID = i, m_SenderID = sender, m_ReceiverID = receiver, m_Content = ''hello'',
      m_ParentID = parent, m_CreatedAt = created, m_UpdatedAt = created\<rparr>"

definition message_store :: store where
  "message_store =
     scenario_store\<lparr>messages := [example_message 1 1 2 None 100, example_message 2 2 1 (Some 1) 200],
                     message_seq := 2, clock := 300\<rparr>"

section \<open>Unfolding rules\<close>

lemmas repo_defs =
  userRepository_GetUserByID_def
  voteRepository_CreateVote_def voteRepository_GetVoteByUserAndPost_def
  voteRepository_GetVoteByUserAndComment_def voteRepository_UpdateVote_def
  voteRepository_DeleteVote_def postRepository_GetPostByID_def postRepository_UpdatePost_def
  commentRepository_CreateComment_def commentRepository_GetCommentByID_def
  commentRepository_UpdateComment_def messageRepository_SendMessage_def
  messageRepository_GetMessageByID_def
  references_user_def references_post_def references_comment_def references_message_def
  nullable_def check_vote_type_def unique_vote_violated_def autoincrement_def

lemmas vote_service_defs =
  voteService_UpdateKarma_def voteService_CastVote_def voteService_ChangeVote_def
  voteService_RemoveVote_def invalid_target_def existing_vote_def update_target_karma_def
  CastVote_delta_def ChangeVote_delta_def RemoveVote_delta_def int64_def

lemmas example_defs =
  scenario_store_def voted_store_def orphan_vote_store_def thread_store_def message_store_def
  example_comment_def example_message_def example_user_def example_post_def vote_on_def

section \<open>The stored karma\<close>

text \<open>
  C1. The claim: after every successful vote operation the target's stored karma is its
  prior stored karma plus the operation's delta, so that from score 0 the steps
  "A casts +1, B casts +1, A changes to -1, B removes" store 1, 2, 0, -1.
  The code: \<open>UpdateKarma\<close> adds the delta to the struct it loaded and hands the struct to
  \<open>UpdatePost\<close> (\<open>UpdateComment\<close>), whose \<open>UPDATE\<close> statement sets title, content and
  \<open>updated_at\<close> only. On the scenario all four operations succeed and the stored karma
  of the post is 0 after each of them.
\<close>

theorem scenario_stored_karma_stays_zero:
  "(case voteService_CastVote scenario_store (vote_on 1 (PostTarget 1) ''upvote'') of
      (e1, _, s1) \<Rightarrow>
    case voteService_CastVote s1 (vote_on 2 (PostTarget 1) ''upvote'') of
      (e2, _, s2) \<Rightarrow>
    case voteService_ChangeVote s2 (vote_on 1 (PostTarget 1) ''downvote'') of
      (e3, s3) \<Rightarrow>
    case voteService_RemoveVote s3 2 1 0 of
      (e4, s4) \<Rightarrow>
        ([e1, e2, e3, e4], map (\<lambda>s. stored_karma s (PostTarget 1)) [s1, s2, s3, s4]))
   = ([None, None, None, None], [Some 0, Some 0, Some 0, Some 0])"
  by (simp add: repo_defs vote_service_defs example_defs stored_karma_def Let_def)

section \<open>Frame lemmas\<close>

text \<open>
  What the karma update leaves alone: the votes and users tables, the ids of the post
  and comment rows, and the karma column of every row.
\<close>

lemma find_None_list_ex: "(find P xs = None) = (\<not> list_ex P xs)"
  by (induction xs) simp_all

lemma find_SomeD: "find P xs = Some x \<Longrightarrow> P x \<and> x \<in> set xs"
  by (induction xs) (auto split: if_splits)

lemma find_map_keep:
  assumes "\<And>r. key (f r) = key r" and "\<And>r. val (f r) = val r"
  shows "map_option val (find (\<lambda>r. key r = k) (map f xs)) = map_option val (find (\<lambda>r. key r = k) xs)"
  using assms by (induction xs) simp_all

lemma list_ex_map_keep:
  assumes "\<And>r. key (f r) = key r"
  shows "list_ex (\<lambda>r. key r = k) (map f xs) = list_ex (\<lambda>r. key r = k) xs"
  using assms by (induction xs) simp_all

lemma UpdatePost_frame:
  assumes "postRepository_UpdatePost s post = (e, post', s')"
  shows "votes s' = votes s" "users s' = users s" "comments s' = comments s"
    "messages s' = messages s" "clock s' = clock s" "vote_seq s' = vote_seq s"
    "map p_ID (posts s') = map p_ID (posts s)" "map p_Karma (posts s') = map p_Karma (posts s)"
  using assms by (auto simp: postRepository_UpdatePost_def split: if_splits)

lemma UpdateComment_frame:
  assumes "commentRepository_UpdateComment s comment = (e, comment', s')"
  shows "votes s' = votes s" "users s' = users s" "posts s' = posts s"
    "messages s' = messages s" "clock s' = clock s" "vote_seq s' = vote_seq s"
    "map c_ID (comments s') = map c_ID (comments s)"
    "map c_Karma (comments s') = map c_Karma (comments s)"
  using assms by (auto simp: commentRepository_UpdateComment_def split: if_splits)

lemma UpdatePost_stored_karma:
  assumes "postRepository_UpdatePost s post = (e, post', s')"
  shows "stored_karma s' t = stored_karma s t"
  using assms
  by (cases t) (auto simp: postRepository_UpdatePost_def stored_karma_def find_map_keep[where key=p_ID and val=p_Karma] split: if_splits)

lemma UpdateComment_stored_karma:
  assumes "commentRepository_UpdateComment s comment = (e, comment', s')"
  shows "stored_karma s' t = stored_karma s t"
  using assms
  by (cases t) (auto simp: commentRepository_UpdateComment_def stored_karma_def find_map_keep[where key=c_ID and val=c_Karma] split: if_splits)

lemma UpdateKarma_votes: "votes (snd (voteService_UpdateKarma s ty i d)) = votes s"
  by (auto simp: voteService_UpdateKarma_def split: sum.splits prod.splits dest: UpdatePost_frame UpdateComment_frame)

lemma UpdateKarma_users: "users (snd (voteService_UpdateKarma s ty i d)) = users s"
  by (auto simp: voteService_UpdateKarma_def split: sum.splits prod.splits dest: UpdatePost_frame UpdateComment_frame)

lemma UpdateKarma_stored_karma:
  "stored_karma (snd (voteService_UpdateKarma s ty i d)) t = stored_karma s t"
  by (auto simp: voteService_UpdateKarma_def split: sum.splits prod.splits dest: UpdatePost_stored_karma UpdateComment_stored_karma)

lemma UpdateKarma_post_ids:
  "map p_ID (posts (snd (voteService_UpdateKarma s ty i d))) = map p_ID (posts s)"
  by (auto simp: voteService_UpdateKarma_def split: sum.splits prod.splits dest: UpdatePost_frame UpdateComment_frame)

lemma UpdateKarma_comment_ids:
  "map c_ID (comments (snd (voteService_UpdateKarma s ty i d))) = map c_ID (comments s)"
  by (auto simp: voteService_UpdateKarma_def split: sum.splits prod.splits dest: UpdatePost_frame UpdateComment_frame)

lemma references_post_ids: "references_post s i = (i \<in> set (map p_ID (posts s)))"
  by (auto simp: references_post_def list_ex_iff)

lemma references_comment_ids: "references_comment s i = (i \<in> set (map c_ID (comments s)))"
  by (auto simp: references_comment_def list_ex_iff)

lemma UpdateKarma_post_result:
  "fst (voteService_UpdateKarma s ''post'' p d) =
     (if references_post s p then None else Some ''GetPostByID: post not found'')"
  by (auto simp: voteService_UpdateKarma_def postRepository_GetPostByID_def postRepository_UpdatePost_def
      references_post_def find_None_list_ex list_ex_iff split: sum.splits option.splits dest!: find_SomeD)

lemma UpdateKarma_comment_result:
  "fst (voteService_UpdateKarma s ''comment'' c d) =
     (if references_comment s c then None else Some ''GetCommentByID: comment not found'')"
  by (auto simp: voteService_UpdateKarma_def commentRepository_GetCommentByID_def commentRepository_UpdateComment_def
      references_comment_def find_None_list_ex list_ex_iff split: sum.splits option.splits dest!: find_SomeD)

section \<open>Vote rows and lookups\<close>

lemma update_target_karma_votes: "votes (snd (update_target_karma s vote d)) = votes s"
  by (simp add: update_target_karma_def UpdateKarma_votes split: option.splits)

lemma update_target_karma_stored_karma:
  "stored_karma (snd (update_target_karma s vote d)) t = stored_karma s t"
  by (simp add: update_target_karma_def UpdateKarma_stored_karma split: option.splits)

lemma CreateVote_success:
  assumes "voteRepository_CreateVote s vote = (None, row, s')"
  shows "row = vote\<lparr>v_ID := autoincrement (vote_seq s) (map v_ID (votes s)),
                      v_CreatedAt := clock s, v_UpdatedAt := clock s\<rparr>"
    and "s' = s\<lparr>votes := votes s @ [row], vote_seq := v_ID row\<rparr>"
    and "check_vote_type (v_VoteType vote)"
    and "references_user s (v_UserID vote)"
    and "nullable (references_post s) (v_PostID vote)"
    and "nullable (references_comment s) (v_CommentID vote)"
  using assms by (auto simp: voteRepository_CreateVote_def Let_def split: if_splits)

lemma stored_karma_cong:
  "posts s' = posts s \<Longrightarrow> comments s' = comments s \<Longrightarrow> stored_karma s' t = stored_karma s t"
  by (cases t) (simp_all add: stored_karma_def)

lemma CreateVote_stored_karma:
  "stored_karma (snd (snd (voteRepository_CreateVote s vote))) t = stored_karma s t"
  by (cases t) (auto simp: voteRepository_CreateVote_def Let_def stored_karma_def)

lemma CastVote_success:
  assumes "voteService_CastVote s vote = (None, vote', s1)"
  shows "\<not> invalid_target vote"
    and "\<exists>s'. voteRepository_CreateVote s vote = (None, vote', s') \<and>
              update_target_karma s' vote' (CastVote_delta vote') = (None, s1)"
  using assms
  by (auto simp: voteService_CastVote_def split: if_splits sum.splits prod.splits option.splits)

lemma vote_target_post: "(vote_target r = Some (PostTarget p)) = (v_PostID r = Some p \<and> v_CommentID r = None)"
  by (auto simp: vote_target_def split: option.splits)

lemma vote_target_comment: "(vote_target r = Some (CommentTarget c)) = (v_CommentID r = Some c \<and> v_PostID r = None)"
  by (auto simp: vote_target_def split: option.splits)

lemma vote_target_None: "(vote_target r = None) = invalid_target r"
  by (auto simp: vote_target_def invalid_target_def split: option.splits)

lemma vote_target_stamp [simp]:
  "vote_target (r\<lparr>v_ID := i, v_CreatedAt := a, v_UpdatedAt := b\<rparr>) = vote_target r"
  by (simp add: vote_target_def cong: option.case_cong)

lemma vote_target_retype [simp]:
  "vote_target (r\<lparr>v_VoteType := ty, v_UpdatedAt := b\<rparr>) = vote_target r"
  by (simp add: vote_target_def cong: option.case_cong)

text \<open>The two lookups return the first live vote.\<close>

lemma find_filter_hd: "find P xs = (case filter P xs of [] \<Rightarrow> None | x # _ \<Rightarrow> Some x)"
  by (induction xs) simp_all

lemma GetVoteByUserAndPost_live:
  "voteRepository_GetVoteByUserAndPost s u p =
     (case live_votes s u (PostTarget p) of
        [] \<Rightarrow> Inl ''GetVoteByUserAndPost: vote not found'' | r # _ \<Rightarrow> Inr r)"
  by (simp add: voteRepository_GetVoteByUserAndPost_def live_votes_def vote_target_post
      find_filter_hd split: list.splits)

lemma GetVoteByUserAndComment_live:
  "voteRepository_GetVoteByUserAndComment s u c =
     (case live_votes s u (CommentTarget c) of
        [] \<Rightarrow> Inl ''GetVoteByUserAndComment: vote not found'' | r # _ \<Rightarrow> Inr r)"
  by (simp add: voteRepository_GetVoteByUserAndComment_def live_votes_def vote_target_comment
      find_filter_hd split: list.splits)

lemma existing_vote_live:
  assumes "vote_target vote = Some t"
  shows "existing_vote s vote =
     (case live_votes s (v_UserID vote) t of
        [] \<Rightarrow> Inl (case t of PostTarget p \<Rightarrow> ''GetVoteByUserAndPost: vote not found''
                            | CommentTarget c \<Rightarrow> ''GetVoteByUserAndComment: vote not found'')
      | r # _ \<Rightarrow> Inr r)"
  using assms
  by (cases t) (auto simp: existing_vote_def vote_target_post vote_target_comment
      GetVoteByUserAndPost_live GetVoteByUserAndComment_live split: list.splits)

lemma live_votes_member:
  "r \<in> set (live_votes s u t) \<Longrightarrow> r \<in> set (votes s) \<and> v_UserID r = u \<and> vote_target r = Some t"
  by (simp add: live_votes_def)

section \<open>Cast followed by remove\<close>

text \<open>
  C7. From a store with no live vote of user \<open>u\<close> on target \<open>t\<close>, a successful
  \<open>CastVote\<close> of \<open>u\<close> on \<open>t\<close> followed by \<open>RemoveVote\<close> of \<open>u\<close> on \<open>t\<close> succeeds,
  leaves the stored score of \<open>t\<close> at its value before the cast and leaves no live vote
  of \<open>u\<close> on \<open>t\<close>. \<open>RemoveVote\<close> reads a zero post id as "no post", so the post target
  with id 0, which \<open>AUTOINCREMENT\<close> never assigns, is excluded.
\<close>

theorem cast_then_remove_restores:
  assumes none: "live_votes s u t = []"
    and vote: "v_UserID vote = u" "vote_target vote = Some t"
    and nz: "t \<noteq> PostTarget 0"
    and cast: "voteService_CastVote s vote = (None, vote', s1)"
  shows "fst (RemoveVote_on s1 u t) = None \<and>
         stored_karma (snd (RemoveVote_on s1 u t)) t = stored_karma s t \<and>
         live_votes (snd (RemoveVote_on s1 u t)) u t = []"
proof -
  from CastVote_success[OF cast] obtain s' where
    cv: "voteRepository_CreateVote s vote = (None, vote', s')" and
    uk: "update_target_karma s' vote' (CastVote_delta vote') = (None, s1)"
    by blast
  note c = CreateVote_success[OF cv]
  have v1: "votes s1 = votes s @ [vote']"
    using update_target_karma_votes[of s' vote' "CastVote_delta vote'"] uk c(2) by simp
  have tgt': "vote_target vote' = Some t" "v_UserID vote' = u"
    using c(1) vote by simp_all
  have lv1: "live_votes s1 u t = [vote']"
    using none tgt' by (simp add: live_votes_def v1)
  have k1: "stored_karma s1 t' = stored_karma s t'" for t'
    using update_target_karma_stored_karma[of s' vote' "CastVote_delta vote'" t'] uk
      CreateVote_stored_karma[of s vote t'] cv by simp
  let ?s2 = "s1\<lparr>votes := filter (\<lambda>r. v_ID r \<noteq> v_ID vote') (votes s1)\<rparr>"
  have del: "voteRepository_DeleteVote s1 vote' = (None, ?s2)"
    by (simp add: voteRepository_DeleteVote_def v1)
  have lv2: "live_votes ?s2 u t = []"
    using none by (simp add: live_votes_def v1 tgt' filter_empty_conv)
  have k2: "stored_karma ?s2 t' = stored_karma s1 t'" for t'
    by (rule stored_karma_cong) simp_all
  show ?thesis
  proof (cases t)
    case (PostTarget p)
    then have p0: "p \<noteq> 0" using nz by simp
    have ids: "v_PostID vote' = Some p" "v_CommentID vote' = None"
      using tgt' PostTarget by (simp_all add: vote_target_post)
    have "fst (voteService_UpdateKarma s' ''post'' p (CastVote_delta vote')) = None"
      using uk ids by (simp add: update_target_karma_def)
    then have "references_post s' p"
      by (simp add: UpdateKarma_post_result split: if_splits)
    then have "references_post s1 p"
      using UpdateKarma_post_ids[of s' "''post''" p "CastVote_delta vote'"] uk ids
      by (simp add: references_post_ids update_target_karma_def)
    then have rp: "references_post ?s2 p" by (simp add: references_post_def)
    have rm: "RemoveVote_on s1 u t =
        voteService_UpdateKarma ?s2 ''post'' p (RemoveVote_delta vote')"
      using PostTarget p0 lv1 del ids
      by (simp add: RemoveVote_on_def voteService_RemoveVote_def GetVoteByUserAndPost_live)
    show ?thesis
      unfolding rm using rp lv2 k1 k2
      by (simp add: UpdateKarma_post_result UpdateKarma_stored_karma live_votes_def UpdateKarma_votes)
  next
    case (CommentTarget c)
    have ids: "v_PostID vote' = None" "v_CommentID vote' = Some c"
      using tgt' CommentTarget by (simp_all add: vote_target_comment)
    have "fst (voteService_UpdateKarma s' ''comment'' c (CastVote_delta vote')) = None"
      using uk ids by (simp add: update_target_karma_def)
    then have "references_comment s' c"
      by (simp add: UpdateKarma_comment_result split: if_splits)
    then have "references_comment s1 c"
      using UpdateKarma_comment_ids[of s' "''comment''" c "CastVote_delta vote'"] uk ids
      by (simp add: references_comment_ids update_target_karma_def)
    then have rp: "references_comment ?s2 c" by (simp add: references_comment_def)
    have rm: "RemoveVote_on s1 u t =
        voteService_UpdateKarma ?s2 ''comment'' c (RemoveVote_delta vote')"
      using CommentTarget lv1 del ids
      by (simp add: RemoveVote_on_def voteService_RemoveVote_def GetVoteByUserAndComment_live)
    show ?thesis
      unfolding rm using rp lv2 k1 k2
      by (simp add: UpdateKarma_comment_result UpdateKarma_stored_karma live_votes_def UpdateKarma_votes)
  qed
qed

theorem cast_then_remove_restores_witness:
  "live_votes scenario_store 1 (PostTarget 1) = [] \<and>
   fst (voteService_CastVote scenario_store (vote_on 1 (PostTarget 1) ''upvote'')) = None \<and>
   fst (RemoveVote_on (snd (snd (voteService_CastVote scenario_store
          (vote_on 1 (PostTarget 1) ''upvote'')))) 1 (PostTarget 1)) = None \<and>
   stored_karma (snd (RemoveVote_on (snd (snd (voteService_CastVote scenario_store
          (vote_on 1 (PostTarget 1) ''upvote'')))) 1 (PostTarget 1))) (PostTarget 1) =
     stored_karma scenario_store (PostTarget 1) \<and>
   live_votes (snd (RemoveVote_on (snd (snd (voteService_CastVote scenario_store
          (vote_on 1 (PostTarget 1) ''upvote'')))) 1 (PostTarget 1))) 1 (PostTarget 1) = []"
proof -
  let ?v = "vote_on 1 (PostTarget 1) ''upvote''"
  have h1: "live_votes scenario_store 1 (PostTarget 1) = []"
    by (simp add: live_votes_def example_defs)
  have h2: "v_UserID ?v = 1" by (simp add: vote_on_def)
  have h3: "vote_target ?v = Some (PostTarget 1)" by (simp add: vote_on_def vote_target_def)
  have h4: "PostTarget 1 \<noteq> PostTarget 0" by simp
  have h5: "fst (voteService_CastVote scenario_store ?v) = None"
    by (simp add: repo_defs vote_service_defs example_defs Let_def)
  then have cast: "voteService_CastVote scenario_store ?v =
      (None, fst (snd (voteService_CastVote scenario_store ?v)),
       snd (snd (voteService_CastVote scenario_store ?v)))"
    by (metis prod.collapse)
  from cast_then_remove_restores [OF h1 h2 h3 h4 cast] h1 h5 show ?thesis by simp
qed

section \<open>The single-vote invariant\<close>


lemma live_votes_empty_iff:
  "(live_votes s u t = []) = ((u, Some t) \<notin> set (map vote_key (filter (\<lambda>r. \<not> invalid_target r) (votes s))))"
  by (auto simp: live_votes_def vote_key_def filter_empty_conv vote_target_None[symmetric] image_iff)

lemma distinct_keys_iff:
  "distinct (map vote_key (filter (\<lambda>r. \<not> invalid_target r) xs)) =
   (\<forall>u t. length (filter (\<lambda>r. v_UserID r = u \<and> vote_target r = Some t) xs) \<le> 1)"
proof (induction xs)
  case Nil
  then show ?case by simp
next
  case (Cons x xs)
  show ?case
  proof (cases "vote_target x")
    case None
    then show ?thesis using Cons by (simp add: vote_target_None[symmetric])
  next
    case (Some t)
    have in_iff: "(vote_key x \<in> set (map vote_key (filter (\<lambda>r. \<not> invalid_target r) xs))) =
                  (filter (\<lambda>r. v_UserID r = v_UserID x \<and> vote_target r = Some t) xs \<noteq> [])"
      using Some by (auto simp: vote_key_def filter_empty_conv vote_target_None[symmetric] image_iff)
    show ?thesis
    proof
      assume d: "distinct (map vote_key (filter (\<lambda>r. \<not> invalid_target r) (x # xs)))"
      then have nin: "filter (\<lambda>r. v_UserID r = v_UserID x \<and> vote_target r = Some t) xs = []"
        and rest: "\<forall>u t. length (filter (\<lambda>r. v_UserID r = u \<and> vote_target r = Some t) xs) \<le> 1"
        using Some in_iff Cons by (auto simp: vote_target_None[symmetric])
      show "\<forall>u t. length (filter (\<lambda>r. v_UserID r = u \<and> vote_target r = Some t) (x # xs)) \<le> 1"
        using nin rest Some by auto
    next
      assume a: "\<forall>u t. length (filter (\<lambda>r. v_UserID r = u \<and> vote_target r = Some t) (x # xs)) \<le> 1"
      have "length (filter (\<lambda>r. v_UserID r = v_UserID x \<and> vote_target r = Some t) (x # xs)) \<le> 1"
        using a by blast
      then have nin: "filter (\<lambda>r. v_UserID r = v_UserID x \<and> vote_target r = Some t) xs = []"
        using Some by simp
      have rest: "\<forall>u t. length (filter (\<lambda>r. v_UserID r = u \<and> vote_target r = Some t) xs) \<le> 1"
      proof (intro allI)
        fix u t'
        have "length (filter (\<lambda>r. v_UserID r = u \<and> vote_target r = Some t') (x # xs)) \<le> 1"
          using a by blast
        then show "length (filter (\<lambda>r. v_UserID r = u \<and> vote_target r = Some t') xs) \<le> 1"
          by (simp split: if_splits)
      qed
      show "distinct (map vote_key (filter (\<lambda>r. \<not> invalid_target r) (x # xs)))"
        using Some nin rest in_iff Cons by (simp add: vote_target_None[symmetric])
    qed
  qed
qed

lemma single_vote_iff: "single_vote s = (\<forall>u t. length (live_votes s u t) \<le> 1)"
  unfolding single_vote_def distinct_keys_iff live_votes_def ..

lemma single_vote_append:
  assumes "single_vote s" "vote_target row = Some t" "live_votes s (v_UserID row) t = []"
  shows "single_vote (s\<lparr>votes := votes s @ [row], vote_seq := i\<rparr>)"
  using assms by (simp add: single_vote_def live_votes_empty_iff vote_target_None[symmetric]) (simp add: vote_key_def)

lemma single_vote_retype:
  assumes "single_vote s"
  shows "single_vote (s\<lparr>votes := map (\<lambda>r. if v_ID r = i then r\<lparr>v_VoteType := ty, v_UpdatedAt := b\<rparr> else r) (votes s)\<rparr>)"
proof -
  let ?f = "\<lambda>r. if v_ID r = i then r\<lparr>v_VoteType := ty, v_UpdatedAt := b\<rparr> else r"
  have "map vote_key (filter (\<lambda>r. \<not> invalid_target r) (map ?f xs)) =
        map vote_key (filter (\<lambda>r. \<not> invalid_target r) xs)" for xs
    by (induction xs) (simp_all add: vote_key_def vote_target_None[symmetric])
  then show ?thesis using assms by (simp add: single_vote_def)
qed

lemma single_vote_delete:
  assumes "single_vote s"
  shows "single_vote (s\<lparr>votes := filter P (votes s)\<rparr>)"
proof -
  have "distinct (map vote_key (filter P (filter (\<lambda>r. \<not> invalid_target r) (votes s))))"
    using assms unfolding single_vote_def by (rule distinct_map_filter)
  then show ?thesis by (simp add: single_vote_def conj_commute)
qed

lemma single_vote_votes: "votes s' = votes s \<Longrightarrow> single_vote s' = single_vote s"
  by (simp add: single_vote_def)

lemma valid_target_deref:
  "\<not> invalid_target vote \<Longrightarrow> v_PostID vote = None \<Longrightarrow> v_CommentID vote \<noteq> None"
  by (simp add: invalid_target_def)

lemma valid_targetE:
  assumes "\<not> invalid_target vote"
  obtains t where "vote_target vote = Some t"
  using assms vote_target_None[of vote] by (cases "vote_target vote") auto

lemma update_target_karma_single_vote:
  "single_vote (snd (update_target_karma s vote d)) = single_vote s"
  by (rule single_vote_votes) (rule update_target_karma_votes)

lemma UpdateKarma_single_vote:
  "single_vote (snd (voteService_UpdateKarma s ty i d)) = single_vote s"
  by (rule single_vote_votes) (rule UpdateKarma_votes)

lemma CastVote_single_vote:
  assumes "single_vote s"
  shows "single_vote (snd (snd (voteService_CastVote s vote)))"
proof (cases "invalid_target vote")
  case True
  then show ?thesis using assms by (simp add: voteService_CastVote_def)
next
  case False
  then obtain t where t: "vote_target vote = Some t" by (rule valid_targetE)
  show ?thesis
  proof (cases "live_votes s (v_UserID vote) t")
    case (Cons r rs)
    then show ?thesis using assms False t
      by (simp add: voteService_CastVote_def existing_vote_live)
  next
    case Nil
    obtain e row s' where cv: "voteRepository_CreateVote s vote = (e, row, s')"
      by (metis prod_cases3)
    show ?thesis
    proof (cases e)
      case (Some err)
      then have "s' = s" using cv
        by (auto simp: voteRepository_CreateVote_def Let_def split: if_splits)
      then show ?thesis using assms False t Nil cv Some
        by (cases t) (simp_all add: voteService_CastVote_def existing_vote_live)
    next
      case None
      note c = CreateVote_success[OF cv[unfolded None]]
      have "single_vote s'"
        unfolding c(2)
        by (rule single_vote_append[OF assms, of row t]) (simp_all add: c(1) t Nil)
      then show ?thesis using False t Nil cv None
        by (cases t) (simp_all add: voteService_CastVote_def existing_vote_live
            update_target_karma_single_vote split_beta)
    qed
  qed
qed

lemma ChangeVote_single_vote:
  assumes "single_vote s"
  shows "single_vote (snd (voteService_ChangeVote s vote))"
  using assms
  by (auto simp: voteService_ChangeVote_def voteRepository_UpdateVote_def
      update_target_karma_single_vote single_vote_retype split_beta
      split: sum.splits option.splits if_splits)

lemma RemoveVote_single_vote:
  assumes "single_vote s"
  shows "single_vote (snd (voteService_RemoveVote s userID postID commentID))"
  using assms
  by (auto simp: voteService_RemoveVote_def voteRepository_DeleteVote_def
      UpdateKarma_single_vote single_vote_delete split_beta
      split: sum.splits option.splits if_splits)

lemma run_vote_op_single_vote: "single_vote s \<Longrightarrow> single_vote (run_vote_op s op)"
  by (cases op) (simp_all add: CastVote_single_vote ChangeVote_single_vote RemoveVote_single_vote)

lemma run_vote_ops_single_vote: "single_vote s \<Longrightarrow> single_vote (foldl run_vote_op s ops)"
  by (induction ops arbitrary: s) (simp_all add: run_vote_op_single_vote)

section \<open>CastVote on an occupied and on a free (user, target) pair\<close>

lemma CastVote_conflict:
  assumes "vote_target vote = Some t" "live_votes s (v_UserID vote) t \<noteq> []"
  shows "voteService_CastVote s vote =
           (Some ''CastVote: user has already voted on this target'', vote, s)"
proof -
  have "\<not> invalid_target vote" using assms(1) vote_target_None[of vote] by simp
  then show ?thesis using assms
    by (simp add: voteService_CastVote_def existing_vote_live split: list.splits)
qed

lemma update_target_karma_result:
  assumes "vote_target vote = Some t"
  shows "fst (update_target_karma s vote d) =
           (if target_exists s t then None
            else Some (case t of PostTarget p \<Rightarrow> ''GetPostByID: post not found''
                               | CommentTarget c \<Rightarrow> ''GetCommentByID: comment not found''))"
  using assms
  by (cases t) (simp_all add: update_target_karma_def target_exists_def vote_target_post
      vote_target_comment UpdateKarma_post_result UpdateKarma_comment_result)

lemma CreateVote_accepts:
  assumes "vote_target vote = Some t" "check_vote_type (v_VoteType vote)"
    "references_user s (v_UserID vote)" "target_exists s t"
  shows "voteRepository_CreateVote s vote =
           (None, vote\<lparr>v_ID := autoincrement (vote_seq s) (map v_ID (votes s)),
                       v_CreatedAt := clock s, v_UpdatedAt := clock s\<rparr>,
            s\<lparr>votes := votes s @ [vote\<lparr>v_ID := autoincrement (vote_seq s) (map v_ID (votes s)),
                                       v_CreatedAt := clock s, v_UpdatedAt := clock s\<rparr>],
              vote_seq := autoincrement (vote_seq s) (map v_ID (votes s))\<rparr>)"
  using assms
  by (cases t) (simp_all add: voteRepository_CreateVote_def Let_def unique_vote_violated_def
      nullable_def target_exists_def vote_target_post vote_target_comment)

lemma target_exists_cong:
  "posts s' = posts s \<Longrightarrow> comments s' = comments s \<Longrightarrow> target_exists s' t = target_exists s t"
  by (cases t) (simp_all add: target_exists_def references_post_def references_comment_def)

lemma CastVote_fresh:
  assumes tgt: "vote_target vote = Some t" and none: "live_votes s (v_UserID vote) t = []"
    and ok: "check_vote_type (v_VoteType vote)" "references_user s (v_UserID vote)"
      "target_exists s t"
  defines "row \<equiv> vote\<lparr>v_ID := autoincrement (vote_seq s) (map v_ID (votes s)),
                       v_CreatedAt := clock s, v_UpdatedAt := clock s\<rparr>"
  shows "fst (voteService_CastVote s vote) = None"
    and "fst (snd (voteService_CastVote s vote)) = row"
    and "votes (snd (snd (voteService_CastVote s vote))) = votes s @ [row]"
    and "live_votes (snd (snd (voteService_CastVote s vote))) (v_UserID vote) t = [row]"
proof -
  let ?s' = "s\<lparr>votes := votes s @ [row], vote_seq := autoincrement (vote_seq s) (map v_ID (votes s))\<rparr>"
  have valid: "\<not> invalid_target vote" using tgt vote_target_None[of vote] by simp
  have cv: "voteRepository_CreateVote s vote = (None, row, ?s')"
    using CreateVote_accepts[OF tgt ok] by (simp add: row_def)
  have ex: "existing_vote s vote =
      Inl (case t of PostTarget p \<Rightarrow> ''GetVoteByUserAndPost: vote not found''
                   | CommentTarget c \<Rightarrow> ''GetVoteByUserAndComment: vote not found'')"
    using none by (simp add: existing_vote_live[OF tgt])
  have cast: "voteService_CastVote s vote =
      (fst (update_target_karma ?s' row (CastVote_delta row)), row,
       snd (update_target_karma ?s' row (CastVote_delta row)))"
    using valid ex cv by (cases t) (simp_all add: voteService_CastVote_def split_beta)
  have trow: "vote_target row = Some t" using tgt by (simp add: row_def)
  have "target_exists ?s' t" using ok(3) by (simp add: target_exists_cong[of ?s' s])
  then show "fst (voteService_CastVote s vote) = None"
    by (simp add: cast update_target_karma_result[OF trow])
  show "fst (snd (voteService_CastVote s vote)) = row" by (simp add: cast)
  show v: "votes (snd (snd (voteService_CastVote s vote))) = votes s @ [row]"
    by (simp add: cast update_target_karma_votes)
  show "live_votes (snd (snd (voteService_CastVote s vote))) (v_UserID vote) t = [row]"
    using none trow by (simp add: live_votes_def v) (simp add: row_def)
qed

text \<open>
  C3. If every (user, target) pair has at most one live vote, then so it has after any
  sequence of \<open>CastVote\<close>, \<open>ChangeVote\<close> and \<open>RemoveVote\<close> calls, whatever their
  arguments and outcomes. \<open>CastVote\<close> on a pair that already has a live vote fails with
  the conflict error and leaves the caller's struct and the store as they were; on a
  free pair, for an existing user and target and a vote type of the schema, it succeeds
  and the pair's only live vote is the input vote with its new id and timestamps.
\<close>

theorem at_most_one_live_vote:
  assumes inv: "single_vote s" and tgt: "vote_target vote = Some t"
  shows "(\<forall>u' t'. length (live_votes (foldl run_vote_op s ops) u' t') \<le> 1) \<and>
         (live_votes s (v_UserID vote) t \<noteq> [] \<longrightarrow>
            voteService_CastVote s vote =
              (Some ''CastVote: user has already voted on this target'', vote, s)) \<and>
         (live_votes s (v_UserID vote) t = [] \<and> check_vote_type (v_VoteType vote) \<and>
          references_user s (v_UserID vote) \<and> target_exists s t \<longrightarrow>
            fst (voteService_CastVote s vote) = None \<and>
            live_votes (snd (snd (voteService_CastVote s vote))) (v_UserID vote) t =
              [vote\<lparr>v_ID := autoincrement (vote_seq s) (map v_ID (votes s)),
                     v_CreatedAt := clock s, v_UpdatedAt := clock s\<rparr>])"
proof (intro conjI impI)
  show "\<forall>u' t'. length (live_votes (foldl run_vote_op s ops) u' t') \<le> 1"
    using run_vote_ops_single_vote[OF inv, of ops] unfolding single_vote_iff .
next
  assume "live_votes s (v_UserID vote) t \<noteq> []"
  then show "voteService_CastVote s vote =
      (Some ''CastVote: user has already voted on this target'', vote, s)"
    by (rule CastVote_conflict[OF tgt])
next
  assume a: "live_votes s (v_UserID vote) t = [] \<and> check_vote_type (v_VoteType vote) \<and>
          references_user s (v_UserID vote) \<and> target_exists s t"
  then show "fst (voteService_CastVote s vote) = None"
    using CastVote_fresh(1)[OF tgt] by blast
  from a show "live_votes (snd (snd (voteService_CastVote s vote))) (v_UserID vote) t =
              [vote\<lparr>v_ID := autoincrement (vote_seq s) (map v_ID (votes s)),
                     v_CreatedAt := clock s, v_UpdatedAt := clock s\<rparr>]"
    using CastVote_fresh(4)[OF tgt] by blast
qed

theorem at_most_one_live_vote_witness:
  "single_vote voted_store \<and>
   (\<forall>u t. length (live_votes (foldl run_vote_op voted_store
        [Cast (vote_on 1 (PostTarget 1) ''upvote''), Cast (vote_on 2 (PostTarget 1) ''downvote''),
         Change (vote_on 1 (PostTarget 1) ''downvote''), Remove 2 1 0,
         Cast (vote_on 1 (PostTarget 1) ''downvote'')]) u t) \<le> 1) \<and>
   live_votes voted_store 1 (PostTarget 1) \<noteq> [] \<and>
   voteService_CastVote voted_store (vote_on 1 (PostTarget 1) ''downvote'') =
     (Some ''CastVote: user has already voted on this target'',
      vote_on 1 (PostTarget 1) ''downvote'', voted_store) \<and>
   live_votes voted_store 2 (PostTarget 1) = [] \<and>
   fst (voteService_CastVote voted_store (vote_on 2 (PostTarget 1) ''downvote'')) = None \<and>
   live_votes (snd (snd (voteService_CastVote voted_store (vote_on 2 (PostTarget 1) ''downvote''))))
       2 (PostTarget 1) =
     [(vote_on 2 (PostTarget 1) ''downvote'')\<lparr>v_ID := 2, v_CreatedAt := 100, v_UpdatedAt := 100\<rparr>]"
proof -
  have inv: "single_vote voted_store"
    by (simp add: single_vote_def example_defs invalid_target_def)
  have t1: "vote_target (vote_on 1 (PostTarget 1) ''downvote'') = Some (PostTarget 1)"
    and t2: "vote_target (vote_on 2 (PostTarget 1) ''downvote'') = Some (PostTarget 1)"
    by (simp_all add: vote_on_def vote_target_def)
  have l1: "live_votes voted_store 1 (PostTarget 1) \<noteq> []"
    and l2: "live_votes voted_store 2 (PostTarget 1) = []"
    by (simp_all add: live_votes_def example_defs vote_target_def)
  have ok: "check_vote_type (v_VoteType (vote_on 2 (PostTarget 1) ''downvote''))"
      "references_user voted_store (v_UserID (vote_on 2 (PostTarget 1) ''downvote''))"
      "target_exists voted_store (PostTarget 1)"
    by (simp_all add: example_defs check_vote_type_def references_user_def target_exists_def
        references_post_def)
  have fresh: "autoincrement (vote_seq voted_store) (map v_ID (votes voted_store)) = 2"
      "clock voted_store = 100"
    by (simp_all add: example_defs autoincrement_def)
  have u: "v_UserID (vote_on 1 (PostTarget 1) ''downvote'') = 1"
      "v_UserID (vote_on 2 (PostTarget 1) ''downvote'') = 2"
    by (simp_all add: vote_on_def)
  let ?ops = "[Cast (vote_on 1 (PostTarget 1) ''upvote''), Cast (vote_on 2 (PostTarget 1) ''downvote''),
         Change (vote_on 1 (PostTarget 1) ''downvote''), Remove 2 1 0,
         Cast (vote_on 1 (PostTarget 1) ''downvote'')]"
  show ?thesis
    using at_most_one_live_vote [OF inv t1, where ops = ?ops]
      at_most_one_live_vote [OF inv t2, where ops = ?ops] inv l1 l2 ok
    unfolding fresh u by blast
qed

section \<open>ChangeVote\<close>

lemma update_target_karma_target:
  assumes "vote_target vote = Some t"
  shows "update_target_karma s vote d = voteService_UpdateKarma s (target_type t) (target_id t) d"
  using assms
  by (cases t) (simp_all add: update_target_karma_def target_type_def target_id_def
      vote_target_post vote_target_comment)

lemma live_votes_retype:
  "live_votes (s\<lparr>votes := map (\<lambda>r. if v_ID r = i then r\<lparr>v_VoteType := ty, v_UpdatedAt := b\<rparr> else r)
                              (votes s)\<rparr>) u t =
   map (\<lambda>r. if v_ID r = i then r\<lparr>v_VoteType := ty, v_UpdatedAt := b\<rparr> else r) (live_votes s u t)"
proof -
  have "filter (\<lambda>r. v_UserID r = u \<and> vote_target r = Some t)
          (map (\<lambda>r. if v_ID r = i then r\<lparr>v_VoteType := ty, v_UpdatedAt := b\<rparr> else r) xs) =
        map (\<lambda>r. if v_ID r = i then r\<lparr>v_VoteType := ty, v_UpdatedAt := b\<rparr> else r)
          (filter (\<lambda>r. v_UserID r = u \<and> vote_target r = Some t) xs)" for xs
    by (induction xs) simp_all
  then show ?thesis by (simp add: live_votes_def)
qed

lemma live_votes_cong: "votes s' = votes s \<Longrightarrow> live_votes s' u t = live_votes s u t"
  by (simp add: live_votes_def)

lemma ChangeVote_not_found:
  assumes "vote_target vote = Some t" "check_vote_type (v_VoteType vote)"
    "live_votes s (v_UserID vote) t = []"
  shows "voteService_ChangeVote s vote =
           (Some (''ChangeVote: '' @ (case t of
                     PostTarget p \<Rightarrow> ''GetVoteByUserAndPost: vote not found''
                   | CommentTarget c \<Rightarrow> ''GetVoteByUserAndComment: vote not found'')), s)"
proof -
  have "\<not> invalid_target vote" using assms(1) vote_target_None[of vote] by simp
  then show ?thesis using assms
    by (auto simp: voteService_ChangeVote_def existing_vote_live check_vote_type_def)
qed

lemma ChangeVote_same:
  assumes "vote_target vote = Some t" "check_vote_type (v_VoteType vote)"
    "live_votes s (v_UserID vote) t = ex # rest" "v_VoteType ex = v_VoteType vote"
  shows "voteService_ChangeVote s vote =
           (Some ''ChangeVote: vote type is already set to the desired value'', s)"
proof -
  have "\<not> invalid_target vote" using assms(1) vote_target_None[of vote] by simp
  then show ?thesis using assms
    by (auto simp: voteService_ChangeVote_def existing_vote_live check_vote_type_def)
qed

lemma ChangeVote_flip:
  assumes tgt: "vote_target vote = Some t" and ty: "check_vote_type (v_VoteType vote)"
    and ex: "live_votes s (v_UserID vote) t = ex # rest"
    and ne: "v_VoteType ex \<noteq> v_VoteType vote"
  shows "voteService_ChangeVote s vote =
           voteService_UpdateKarma
             (s\<lparr>votes := map (\<lambda>r. if v_ID r = v_ID ex
                                   then r\<lparr>v_VoteType := v_VoteType vote, v_UpdatedAt := clock s\<rparr>
                                   else r) (votes s)\<rparr>)
             (target_type t) (target_id t) (ChangeVote_delta vote)"
proof -
  have valid: "\<not> invalid_target vote" using tgt vote_target_None[of vote] by simp
  have "ex \<in> set (votes s)"
    using live_votes_member[of ex s "v_UserID vote" t] ex by simp
  then have found: "list_ex (\<lambda>r. v_ID r = v_ID ex) (votes s)"
    by (auto simp: list_ex_iff)
  have upd: "voteRepository_UpdateVote s (ex\<lparr>v_VoteType := v_VoteType vote\<rparr>) =
      (None, ex\<lparr>v_VoteType := v_VoteType vote, v_UpdatedAt := clock s\<rparr>,
       s\<lparr>votes := map (\<lambda>r. if v_ID r = v_ID ex
                             then r\<lparr>v_VoteType := v_VoteType vote, v_UpdatedAt := clock s\<rparr>
                             else r) (votes s)\<rparr>)"
    using found ty by (simp add: voteRepository_UpdateVote_def)
  show ?thesis
    using valid ty ex ne upd
    by (auto simp: voteService_ChangeVote_def existing_vote_live[OF tgt]
        update_target_karma_target[OF tgt] check_vote_type_def)
qed

text \<open>
  C5. \<open>ChangeVote\<close> with a vote type of the schema on a valid target: with no live vote
  of the user on the target it fails with the wrapped not-found error; with a live vote
  \<open>ex\<close> (the only one, by the single-vote invariant) of the requested type it fails with
  the "already set" error; in both cases the store is returned unchanged. Otherwise the
  row of \<open>ex\<close> gets the requested type and the operation is one call of \<open>UpdateKarma\<close> on
  the target with delta \<open>vote_value new - vote_value old\<close>, which is +2 when changing to
  an upvote and -2 when changing to a downvote; afterwards the user's live vote on the
  target carries the requested type.
\<close>

theorem change_vote_outcomes:
  assumes tgt: "vote_target vote = Some t" and ty: "check_vote_type (v_VoteType vote)"
  shows "(live_votes s (v_UserID vote) t = [] \<longrightarrow>
            voteService_ChangeVote s vote =
              (Some (''ChangeVote: '' @ (case t of
                        PostTarget p \<Rightarrow> ''GetVoteByUserAndPost: vote not found''
                      | CommentTarget c \<Rightarrow> ''GetVoteByUserAndComment: vote not found'')), s)) \<and>
         (live_votes s (v_UserID vote) t = [ex] \<and> v_VoteType ex = v_VoteType vote \<longrightarrow>
            voteService_ChangeVote s vote =
              (Some ''ChangeVote: vote type is already set to the desired value'', s)) \<and>
         (live_votes s (v_UserID vote) t = [ex] \<and> check_vote_type (v_VoteType ex) \<and>
          v_VoteType ex \<noteq> v_VoteType vote \<longrightarrow>
            voteService_ChangeVote s vote =
              voteService_UpdateKarma
                (s\<lparr>votes := map (\<lambda>r. if v_ID r = v_ID ex
                                      then r\<lparr>v_VoteType := v_VoteType vote, v_UpdatedAt := clock s\<rparr>
                                      else r) (votes s)\<rparr>)
                (target_type t) (target_id t)
                (vote_value (v_VoteType vote) - vote_value (v_VoteType ex)) \<and>
            vote_value (v_VoteType vote) - vote_value (v_VoteType ex) =
              (if v_VoteType vote = ''upvote'' then 2 else -2) \<and>
            live_votes (snd (voteService_ChangeVote s vote)) (v_UserID vote) t =
              [ex\<lparr>v_VoteType := v_VoteType vote, v_UpdatedAt := clock s\<rparr>])"
proof (intro conjI impI)
  assume "live_votes s (v_UserID vote) t = []"
  then show "voteService_ChangeVote s vote =
              (Some (''ChangeVote: '' @ (case t of
                        PostTarget p \<Rightarrow> ''GetVoteByUserAndPost: vote not found''
                      | CommentTarget c \<Rightarrow> ''GetVoteByUserAndComment: vote not found'')), s)"
    by (rule ChangeVote_not_found[OF tgt ty])
next
  assume "live_votes s (v_UserID vote) t = [ex] \<and> v_VoteType ex = v_VoteType vote"
  then show "voteService_ChangeVote s vote =
              (Some ''ChangeVote: vote type is already set to the desired value'', s)"
    using ChangeVote_same[OF tgt ty] by blast
next
  assume a: "live_votes s (v_UserID vote) t = [ex] \<and> check_vote_type (v_VoteType ex) \<and>
          v_VoteType ex \<noteq> v_VoteType vote"
  then have d: "ChangeVote_delta vote = vote_value (v_VoteType vote) - vote_value (v_VoteType ex)"
    using ty by (auto simp: ChangeVote_delta_def vote_value_def check_vote_type_def)
  have flip: "voteService_ChangeVote s vote =
              voteService_UpdateKarma
                (s\<lparr>votes := map (\<lambda>r. if v_ID r = v_ID ex
                                      then r\<lparr>v_VoteType := v_VoteType vote, v_UpdatedAt := clock s\<rparr>
                                      else r) (votes s)\<rparr>)
                (target_type t) (target_id t) (ChangeVote_delta vote)"
    using a ChangeVote_flip[OF tgt ty] by blast
  show "voteService_ChangeVote s vote =
              voteService_UpdateKarma
                (s\<lparr>votes := map (\<lambda>r. if v_ID r = v_ID ex
                                      then r\<lparr>v_VoteType := v_VoteType vote, v_UpdatedAt := clock s\<rparr>
                                      else r) (votes s)\<rparr>)
                (target_type t) (target_id t)
                (vote_value (v_VoteType vote) - vote_value (v_VoteType ex))"
    using flip d by simp
  show "vote_value (v_VoteType vote) - vote_value (v_VoteType ex) =
              (if v_VoteType vote = ''upvote'' then 2 else -2)"
    using d by (simp add: ChangeVote_delta_def)
  have "live_votes (snd (voteService_ChangeVote s vote)) (v_UserID vote) t =
        live_votes (s\<lparr>votes := map (\<lambda>r. if v_ID r = v_ID ex
                                      then r\<lparr>v_VoteType := v_VoteType vote, v_UpdatedAt := clock s\<rparr>
                                      else r) (votes s)\<rparr>) (v_UserID vote) t"
    unfolding flip by (rule live_votes_cong) (rule UpdateKarma_votes)
  then show "live_votes (snd (voteService_ChangeVote s vote)) (v_UserID vote) t =
              [ex\<lparr>v_VoteType := v_VoteType vote, v_UpdatedAt := clock s\<rparr>]"
    using a by (simp add: live_votes_retype)
qed

theorem change_vote_outcomes_witness:
  "voteService_ChangeVote voted_store (vote_on 2 (PostTarget 1) ''upvote'') =
     (Some ''ChangeVote: GetVoteByUserAndPost: vote not found'', voted_store) \<and>
   voteService_ChangeVote voted_store (vote_on 1 (PostTarget 1) ''upvote'') =
     (Some ''ChangeVote: vote type is already set to the desired value'', voted_store) \<and>
   voteService_ChangeVote voted_store (vote_on 1 (PostTarget 1) ''downvote'') =
     voteService_UpdateKarma
       (voted_store\<lparr>votes := [(vote_on 1 (PostTarget 1) ''downvote'')
                                  \<lparr>v_ID := 1, v_CreatedAt := 100, v_UpdatedAt := 100\<rparr>]\<rparr>)
       ''post'' 1 (-2) \<and>
   live_votes (snd (voteService_ChangeVote voted_store (vote_on 1 (PostTarget 1) ''downvote'')))
       1 (PostTarget 1) =
     [(vote_on 1 (PostTarget 1) ''downvote'')\<lparr>v_ID := 1, v_CreatedAt := 100, v_UpdatedAt := 100\<rparr>]"
proof -
  let ?ex = "(vote_on 1 (PostTarget 1) ''upvote'')\<lparr>v_ID := 1, v_CreatedAt := 100, v_UpdatedAt := 100\<rparr>"
  have t2: "vote_target (vote_on 2 (PostTarget 1) ''upvote'') = Some (PostTarget 1)"
    and t1u: "vote_target (vote_on 1 (PostTarget 1) ''upvote'') = Some (PostTarget 1)"
    and t1d: "vote_target (vote_on 1 (PostTarget 1) ''downvote'') = Some (PostTarget 1)"
    by (simp_all add: vote_on_def vote_target_def)
  have c2: "check_vote_type (v_VoteType (vote_on 2 (PostTarget 1) ''upvote''))"
    and c1u: "check_vote_type (v_VoteType (vote_on 1 (PostTarget 1) ''upvote''))"
    and c1d: "check_vote_type (v_VoteType (vote_on 1 (PostTarget 1) ''downvote''))"
    by (simp_all add: vote_on_def check_vote_type_def)
  have l2: "live_votes voted_store (v_UserID (vote_on 2 (PostTarget 1) ''upvote'')) (PostTarget 1) = []"
    and l1u: "live_votes voted_store (v_UserID (vote_on 1 (PostTarget 1) ''upvote'')) (PostTarget 1) = [?ex]"
    and l1d: "live_votes voted_store (v_UserID (vote_on 1 (PostTarget 1) ''downvote'')) (PostTarget 1) = [?ex]"
    by (simp_all add: live_votes_def example_defs vote_target_def)
  have same: "v_VoteType ?ex = v_VoteType (vote_on 1 (PostTarget 1) ''upvote'')"
    and diff: "check_vote_type (v_VoteType ?ex)"
      "v_VoteType ?ex \<noteq> v_VoteType (vote_on 1 (PostTarget 1) ''downvote'')"
    by (simp_all add: vote_on_def check_vote_type_def)
  have a: "voteService_ChangeVote voted_store (vote_on 2 (PostTarget 1) ''upvote'') =
     (Some ''ChangeVote: GetVoteByUserAndPost: vote not found'', voted_store)"
    using change_vote_outcomes [OF t2 c2, of voted_store] l2 by simp
  have b: "voteService_ChangeVote voted_store (vote_on 1 (PostTarget 1) ''upvote'') =
     (Some ''ChangeVote: vote type is already set to the desired value'', voted_store)"
    using change_vote_outcomes [OF t1u c1u, of voted_store ?ex] l1u same by blast
  let ?vd = "vote_on 1 (PostTarget 1) ''downvote''"
  have e1: "voted_store\<lparr>votes := map (\<lambda>r. if v_ID r = v_ID ?ex
                 then r\<lparr>v_VoteType := v_VoteType ?vd, v_UpdatedAt := clock voted_store\<rparr>
                 else r) (votes voted_store)\<rparr> =
            voted_store\<lparr>votes := [?vd\<lparr>v_ID := 1, v_CreatedAt := 100, v_UpdatedAt := 100\<rparr>]\<rparr>"
    by (simp add: example_defs)
  have e2: "target_type (PostTarget 1) = ''post''" "target_id (PostTarget 1) = 1"
    "vote_value (v_VoteType ?vd) - vote_value (v_VoteType ?ex) = -2"
    by (simp_all add: target_type_def target_id_def vote_value_def vote_on_def)
  have e3: "?ex\<lparr>v_VoteType := v_VoteType ?vd, v_UpdatedAt := clock voted_store\<rparr> =
            ?vd\<lparr>v_ID := 1, v_CreatedAt := 100, v_UpdatedAt := 100\<rparr>"
    "v_UserID ?vd = 1"
    by (simp_all add: example_defs)
  have c: "voteService_ChangeVote voted_store ?vd =
     voteService_UpdateKarma
       (voted_store\<lparr>votes := [?vd\<lparr>v_ID := 1, v_CreatedAt := 100, v_UpdatedAt := 100\<rparr>]\<rparr>)
       ''post'' 1 (-2) \<and>
   live_votes (snd (voteService_ChangeVote voted_store ?vd)) 1 (PostTarget 1) =
     [?vd\<lparr>v_ID := 1, v_CreatedAt := 100, v_UpdatedAt := 100\<rparr>]"
    using change_vote_outcomes [OF t1d c1d, of voted_store ?ex] l1d diff
    unfolding e1 e2 e3 by blast
  from a b c show ?thesis by blast
qed

section \<open>The vote type in CastVote and ChangeVote\<close>

lemma CastVote_free_pair:
  assumes tgt: "vote_target vote = Some t" and none: "live_votes s (v_UserID vote) t = []"
  shows "voteService_CastVote s vote =
           (case voteRepository_CreateVote s vote of
              (Some err, vote', s') \<Rightarrow> (Some err, vote', s')
            | (None, vote', s') \<Rightarrow>
                (fst (update_target_karma s' vote' (CastVote_delta vote')), vote',
                 snd (update_target_karma s' vote' (CastVote_delta vote'))))"
proof -
  have "\<not> invalid_target vote" using tgt vote_target_None[of vote] by simp
  then show ?thesis using none
    by (cases t) (auto simp: voteService_CastVote_def existing_vote_live[OF tgt] split_beta
        split: option.splits)
qed

text \<open>
  C10. \<open>CastVote\<close> does not look at the vote type before it calls the repository: on a
  valid target without a live vote of the user its outcome is the repository's. A vote
  the repository rejects comes back with the repository's error; a vote the repository
  accepts whose type is not \<open>upvote\<close> gets the karma delta -1, and the operation ends with
  the call of \<open>UpdateKarma\<close> with that delta. \<open>ChangeVote\<close> returns its "invalid vote type"
  error for every type other than \<open>upvote\<close> and \<open>downvote\<close>, on every store and with the
  store unchanged.
\<close>

theorem cast_vote_type_not_validated:
  assumes tgt: "vote_target vote = Some t" and none: "live_votes s (v_UserID vote) t = []"
  shows "(voteRepository_CreateVote s vote = (None, row, s') \<and> v_VoteType vote \<noteq> ''upvote'' \<longrightarrow>
            CastVote_delta row = -1 \<and>
            voteService_CastVote s vote =
              (fst (voteService_UpdateKarma s' (target_type t) (target_id t) (-1)), row,
               snd (voteService_UpdateKarma s' (target_type t) (target_id t) (-1)))) \<and>
         (voteRepository_CreateVote s vote = (Some e, row, s') \<longrightarrow>
            voteService_CastVote s vote = (Some e, row, s')) \<and>
         (v_VoteType other \<noteq> ''upvote'' \<and> v_VoteType other \<noteq> ''downvote'' \<longrightarrow>
            voteService_ChangeVote s0 other = (Some ''ChangeVote: invalid vote type'', s0))"
proof (intro conjI impI)
  assume a: "voteRepository_CreateVote s vote = (None, row, s') \<and> v_VoteType vote \<noteq> ''upvote''"
  note c = CreateVote_success[of s vote row s']
  have ty: "v_VoteType row = v_VoteType vote" and trow: "vote_target row = Some t"
    using a c(1) tgt by simp_all
  show d: "CastVote_delta row = -1" using a ty by (simp add: CastVote_delta_def)
  show "voteService_CastVote s vote =
              (fst (voteService_UpdateKarma s' (target_type t) (target_id t) (-1)), row,
               snd (voteService_UpdateKarma s' (target_type t) (target_id t) (-1)))"
    using a d by (simp add: CastVote_free_pair[OF tgt none] update_target_karma_target[OF trow])
next
  assume "voteRepository_CreateVote s vote = (Some e, row, s')"
  then show "voteService_CastVote s vote = (Some e, row, s')"
    by (simp add: CastVote_free_pair[OF tgt none])
next
  assume "v_VoteType other \<noteq> ''upvote'' \<and> v_VoteType other \<noteq> ''downvote''"
  then show "voteService_ChangeVote s0 other = (Some ''ChangeVote: invalid vote type'', s0)"
    by (simp add: voteService_ChangeVote_def)
qed

theorem cast_vote_type_not_validated_witness:
  "voteService_CastVote scenario_store (vote_on 1 (PostTarget 1) ''downvote'') =
     (fst (voteService_UpdateKarma (voted_store\<lparr>votes := [(vote_on 1 (PostTarget 1) ''downvote'')
                 \<lparr>v_ID := 1, v_CreatedAt := 100, v_UpdatedAt := 100\<rparr>]\<rparr>) ''post'' 1 (-1)),
      (vote_on 1 (PostTarget 1) ''downvote'')\<lparr>v_ID := 1, v_CreatedAt := 100, v_UpdatedAt := 100\<rparr>,
      snd (voteService_UpdateKarma (voted_store\<lparr>votes := [(vote_on 1 (PostTarget 1) ''downvote'')
                 \<lparr>v_ID := 1, v_CreatedAt := 100, v_UpdatedAt := 100\<rparr>]\<rparr>) ''post'' 1 (-1))) \<and>
   voteService_CastVote scenario_store (vote_on 1 (PostTarget 1) ''sideways'') =
     (Some (''CreateVote: '' @ sqlite_check_failed), vote_on 1 (PostTarget 1) ''sideways'',
      scenario_store) \<and>
   voteService_ChangeVote voted_store (vote_on 1 (PostTarget 1) ''sideways'') =
     (Some ''ChangeVote: invalid vote type'', voted_store)"
proof -
  let ?vd = "vote_on 1 (PostTarget 1) ''downvote''"
  let ?vs = "vote_on 1 (PostTarget 1) ''sideways''"
  let ?row = "?vd\<lparr>v_ID := 1, v_CreatedAt := 100, v_UpdatedAt := 100\<rparr>"
  let ?s' = "voted_store\<lparr>votes := [?row]\<rparr>"
  have td: "vote_target ?vd = Some (PostTarget 1)" and ts: "vote_target ?vs = Some (PostTarget 1)"
    by (simp_all add: vote_on_def vote_target_def)
  have nd: "live_votes scenario_store (v_UserID ?vd) (PostTarget 1) = []"
    and ns: "live_votes scenario_store (v_UserID ?vs) (PostTarget 1) = []"
    by (simp_all add: live_votes_def example_defs)
  have accepted: "voteRepository_CreateVote scenario_store ?vd = (None, ?row, ?s')"
    by (simp add: repo_defs example_defs Let_def)
  have rejected: "voteRepository_CreateVote scenario_store ?vs =
      (Some (''CreateVote: '' @ sqlite_check_failed), ?vs, scenario_store)"
    by (simp add: repo_defs example_defs)
  have ty: "v_VoteType ?vd \<noteq> ''upvote''"
    "v_VoteType ?vs \<noteq> ''upvote'' \<and> v_VoteType ?vs \<noteq> ''downvote''"
    by (simp_all add: vote_on_def)
  have e: "target_type (PostTarget 1) = ''post''" "target_id (PostTarget 1) = 1"
    by (simp_all add: target_type_def target_id_def)
  have a: "voteService_CastVote scenario_store ?vd =
     (fst (voteService_UpdateKarma ?s' ''post'' 1 (-1)), ?row,
      snd (voteService_UpdateKarma ?s' ''post'' 1 (-1)))"
    using cast_vote_type_not_validated [OF td nd, of ?row ?s'] accepted ty(1)
    unfolding e by blast
  have b: "voteService_CastVote scenario_store ?vs =
     (Some (''CreateVote: '' @ sqlite_check_failed), ?vs, scenario_store)"
    using cast_vote_type_not_validated [OF ts ns, of ?vs scenario_store] rejected by blast
  have c: "voteService_ChangeVote voted_store ?vs =
     (Some ''ChangeVote: invalid vote type'', voted_store)"
    using cast_vote_type_not_validated [OF ts ns, where other = ?vs and ?s0.0 = voted_store] ty(2)
    by blast
  from a b c show ?thesis by blast
qed

section \<open>The target check\<close>

text \<open>
  C6, as claimed, fails in two places. \<open>RemoveVote\<close> takes the two ids as integers and
  has no target check: with both ids set it looks the vote up by post, here removing
  user 1's vote on post 1 and returning no error; with neither set it looks up a vote
  on comment 0 and returns the lookup's not-found error. \<open>ChangeVote\<close> checks the vote
  type before the target, so a vote without target and with another vote type gets the
  "invalid vote type" error.
\<close>

theorem target_check_exceptions:
  "fst (voteService_RemoveVote voted_store 1 1 1) = None \<and>
   votes (snd (voteService_RemoveVote voted_store 1 1 1)) = [] \<and>
   votes voted_store \<noteq> [] \<and>
   voteService_RemoveVote voted_store 1 0 0 =
     (Some ''RemoveVote: GetVoteByUserAndComment: vote not found'', voted_store) \<and>
   vote_target ((vote_on 1 (PostTarget 1) ''sideways'')\<lparr>v_PostID := None\<rparr>) = None \<and>
   voteService_ChangeVote voted_store ((vote_on 1 (PostTarget 1) ''sideways'')\<lparr>v_PostID := None\<rparr>) =
     (Some ''ChangeVote: invalid vote type'', voted_store)"
  by (simp add: repo_defs vote_service_defs example_defs vote_target_def)

text \<open>
  C6, amended. An input vote that references both a post and a comment, or neither,
  makes \<open>CastVote\<close> return its target error, and makes \<open>ChangeVote\<close> return its target
  error when the vote type is \<open>upvote\<close> or \<open>downvote\<close> (the type is checked first). The
  result is the same on every store, and the store is returned as it was.
\<close>

theorem invalid_target_rejected:
  assumes "vote_target vote = None"
  shows "voteService_CastVote s vote =
           (Some ''CastVote: vote must be on either a post or a comment'', vote, s) \<and>
         (check_vote_type (v_VoteType vote) \<longrightarrow>
            voteService_ChangeVote s vote =
              (Some ''ChangeVote: vote must be on either a post or a comment'', s))"
  using assms
  by (auto simp: vote_target_None voteService_CastVote_def voteService_ChangeVote_def
      check_vote_type_def)

theorem invalid_target_rejected_witness:
  "vote_target ((vote_on 1 (PostTarget 1) ''upvote'')\<lparr>v_CommentID := Some 1\<rparr>) = None \<and>
   voteService_CastVote voted_store ((vote_on 1 (PostTarget 1) ''upvote'')\<lparr>v_CommentID := Some 1\<rparr>) =
     (Some ''CastVote: vote must be on either a post or a comment'',
      (vote_on 1 (PostTarget 1) ''upvote'')\<lparr>v_CommentID := Some 1\<rparr>, voted_store) \<and>
   voteService_ChangeVote voted_store ((vote_on 1 (PostTarget 1) ''upvote'')\<lparr>v_CommentID := Some 1\<rparr>) =
     (Some ''ChangeVote: vote must be on either a post or a comment'', voted_store) \<and>
   vote_target ((vote_on 1 (PostTarget 1) ''downvote'')\<lparr>v_PostID := None\<rparr>) = None \<and>
   voteService_CastVote voted_store ((vote_on 1 (PostTarget 1) ''downvote'')\<lparr>v_PostID := None\<rparr>) =
     (Some ''CastVote: vote must be on either a post or a comment'',
      (vote_on 1 (PostTarget 1) ''downvote'')\<lparr>v_PostID := None\<rparr>, voted_store) \<and>
   voteService_ChangeVote voted_store ((vote_on 1 (PostTarget 1) ''downvote'')\<lparr>v_PostID := None\<rparr>) =
     (Some ''ChangeVote: vote must be on either a post or a comment'', voted_store)"
proof -
  let ?both = "(vote_on 1 (PostTarget 1) ''upvote'')\<lparr>v_CommentID := Some 1\<rparr>"
  let ?neither = "(vote_on 1 (PostTarget 1) ''downvote'')\<lparr>v_PostID := None\<rparr>"
  have b: "vote_target ?both = None" and n: "vote_target ?neither = None"
    by (simp_all add: vote_on_def vote_target_def)
  have ty: "check_vote_type (v_VoteType ?both)" "check_vote_type (v_VoteType ?neither)"
    by (simp_all add: vote_on_def check_vote_type_def)
  show ?thesis
    using invalid_target_rejected [OF b, of voted_store]
      invalid_target_rejected [OF n, of voted_store] b n ty
    by blast
qed

section \<open>Vote write and karma update\<close>

lemma RemoveVote_live:
  assumes ex: "live_votes s u t = ex # rest" and nz: "t \<noteq> PostTarget 0"
  shows "RemoveVote_on s u t =
           voteService_UpdateKarma (s\<lparr>votes := filter (\<lambda>r. v_ID r \<noteq> v_ID ex) (votes s)\<rparr>)
             (target_type t) (target_id t) (RemoveVote_delta ex)"
proof -
  have m: "ex \<in> set (votes s)" "vote_target ex = Some t"
    using live_votes_member[of ex s u t] ex by simp_all
  then have found: "list_ex (\<lambda>r. v_ID r = v_ID ex) (votes s)"
    by (auto simp: list_ex_iff)
  have del: "voteRepository_DeleteVote s ex =
      (None, s\<lparr>votes := filter (\<lambda>r. v_ID r \<noteq> v_ID ex) (votes s)\<rparr>)"
    using found by (simp add: voteRepository_DeleteVote_def)
  show ?thesis
  proof (cases t)
    case (PostTarget p)
    then have "p \<noteq> 0" using nz by simp
    then show ?thesis using PostTarget ex del m(2)
      by (simp add: RemoveVote_on_def voteService_RemoveVote_def GetVoteByUserAndPost_live
          vote_target_post target_type_def target_id_def)
  next
    case (CommentTarget c)
    then show ?thesis using ex del m(2)
      by (simp add: RemoveVote_on_def voteService_RemoveVote_def GetVoteByUserAndComment_live
          vote_target_comment target_type_def target_id_def)
  qed
qed

text \<open>
  C2, as claimed, fails: the services contain no rollback. Where the target's row is
  absent the karma update fails after the vote write; \<open>RemoveVote\<close> then returns the
  error with the vote deleted, and \<open>ChangeVote\<close> returns it with the vote retyped.
\<close>

theorem karma_failure_keeps_vote_write:
  "fst (voteService_RemoveVote orphan_vote_store 1 1 0) = Some ''GetPostByID: post not found'' \<and>
   votes (snd (voteService_RemoveVote orphan_vote_store 1 1 0)) = [] \<and>
   votes orphan_vote_store =
     [(vote_on 1 (PostTarget 1) ''upvote'')\<lparr>v_ID := 1, v_CreatedAt := 100, v_UpdatedAt := 100\<rparr>] \<and>
   fst (voteService_ChangeVote orphan_vote_store (vote_on 1 (PostTarget 1) ''downvote'')) =
     Some ''GetPostByID: post not found'' \<and>
   votes (snd (voteService_ChangeVote orphan_vote_store (vote_on 1 (PostTarget 1) ''downvote''))) =
     [(vote_on 1 (PostTarget 1) ''downvote'')\<lparr>v_ID := 1, v_CreatedAt := 100, v_UpdatedAt := 100\<rparr>]"
  by (simp add: repo_defs vote_service_defs example_defs)

text \<open>
  C2, amended. Each operation first persists its vote mutation and then runs the karma
  update as a separate step. The operation returns what the karma update returns, and
  whether that is an error or not, the votes table stays as the vote write left it: the
  new row appended (\<open>CastVote\<close>), the row retyped (\<open>ChangeVote\<close>), the row deleted
  (\<open>RemoveVote\<close>).
\<close>

theorem vote_write_survives_karma_update:
  assumes tgt: "vote_target vote = Some t"
  shows "(live_votes s (v_UserID vote) t = [] \<and>
          voteRepository_CreateVote s vote = (None, row, s1) \<longrightarrow>
            fst (voteService_CastVote s vote) =
              fst (voteService_UpdateKarma s1 (target_type t) (target_id t) (CastVote_delta row)) \<and>
            votes (snd (snd (voteService_CastVote s vote))) = votes s @ [row]) \<and>
         (live_votes s (v_UserID vote) t = ex # rest \<and> check_vote_type (v_VoteType vote) \<and>
          v_VoteType ex \<noteq> v_VoteType vote \<longrightarrow>
            fst (voteService_ChangeVote s vote) =
              fst (voteService_UpdateKarma
                     (s\<lparr>votes := map (\<lambda>r. if v_ID r = v_ID ex
                                           then r\<lparr>v_VoteType := v_VoteType vote,
                                                  v_UpdatedAt := clock s\<rparr>
                                           else r) (votes s)\<rparr>)
                     (target_type t) (target_id t) (ChangeVote_delta vote)) \<and>
            votes (snd (voteService_ChangeVote s vote)) =
              map (\<lambda>r. if v_ID r = v_ID ex
                        then r\<lparr>v_VoteType := v_VoteType vote, v_UpdatedAt := clock s\<rparr>
                        else r) (votes s)) \<and>
         (live_votes s (v_UserID vote) t = ex # rest \<and> t \<noteq> PostTarget 0 \<longrightarrow>
            fst (RemoveVote_on s (v_UserID vote) t) =
              fst (voteService_UpdateKarma
                     (s\<lparr>votes := filter (\<lambda>r. v_ID r \<noteq> v_ID ex) (votes s)\<rparr>)
                     (target_type t) (target_id t) (RemoveVote_delta ex)) \<and>
            votes (snd (RemoveVote_on s (v_UserID vote) t)) =
              filter (\<lambda>r. v_ID r \<noteq> v_ID ex) (votes s))"
proof (intro conjI impI)
  assume a: "live_votes s (v_UserID vote) t = [] \<and>
          voteRepository_CreateVote s vote = (None, row, s1)"
  note c = CreateVote_success[of s vote row s1]
  have trow: "vote_target row = Some t" using a c(1) tgt by simp
  have cast: "voteService_CastVote s vote =
      (fst (voteService_UpdateKarma s1 (target_type t) (target_id t) (CastVote_delta row)), row,
       snd (voteService_UpdateKarma s1 (target_type t) (target_id t) (CastVote_delta row)))"
    using a by (simp add: CastVote_free_pair[OF tgt] update_target_karma_target[OF trow])
  show "fst (voteService_CastVote s vote) =
      fst (voteService_UpdateKarma s1 (target_type t) (target_id t) (CastVote_delta row))"
    by (simp add: cast)
  show "votes (snd (snd (voteService_CastVote s vote))) = votes s @ [row]"
    using a c(2) by (simp add: cast UpdateKarma_votes)
next
  assume a: "live_votes s (v_UserID vote) t = ex # rest \<and> check_vote_type (v_VoteType vote) \<and>
          v_VoteType ex \<noteq> v_VoteType vote"
  then have flip: "voteService_ChangeVote s vote =
      voteService_UpdateKarma
        (s\<lparr>votes := map (\<lambda>r. if v_ID r = v_ID ex
                              then r\<lparr>v_VoteType := v_VoteType vote, v_UpdatedAt := clock s\<rparr>
                              else r) (votes s)\<rparr>)
        (target_type t) (target_id t) (ChangeVote_delta vote)"
    using ChangeVote_flip[OF tgt] by blast
  show "fst (voteService_ChangeVote s vote) =
      fst (voteService_UpdateKarma
             (s\<lparr>votes := map (\<lambda>r. if v_ID r = v_ID ex
                                   then r\<lparr>v_VoteType := v_VoteType vote, v_UpdatedAt := clock s\<rparr>
                                   else r) (votes s)\<rparr>)
             (target_type t) (target_id t) (ChangeVote_delta vote))"
    by (simp add: flip)
  show "votes (snd (voteService_ChangeVote s vote)) =
      map (\<lambda>r. if v_ID r = v_ID ex
                then r\<lparr>v_VoteType := v_VoteType vote, v_UpdatedAt := clock s\<rparr>
                else r) (votes s)"
    by (simp add: flip UpdateKarma_votes)
next
  assume a: "live_votes s (v_UserID vote) t = ex # rest \<and> t \<noteq> PostTarget 0"
  then have rm: "RemoveVote_on s (v_UserID vote) t =
      voteService_UpdateKarma (s\<lparr>votes := filter (\<lambda>r. v_ID r \<noteq> v_ID ex) (votes s)\<rparr>)
        (target_type t) (target_id t) (RemoveVote_delta ex)"
    using RemoveVote_live by blast
  show "fst (RemoveVote_on s (v_UserID vote) t) =
      fst (voteService_UpdateKarma
             (s\<lparr>votes := filter (\<lambda>r. v_ID r \<noteq> v_ID ex) (votes s)\<rparr>)
             (target_type t) (target_id t) (RemoveVote_delta ex))"
    by (simp add: rm)
  show "votes (snd (RemoveVote_on s (v_UserID vote) t)) =
      filter (\<lambda>r. v_ID r \<noteq> v_ID ex) (votes s)"
    by (simp add: rm UpdateKarma_votes)
qed

theorem vote_write_survives_karma_update_witness:
  "fst (voteService_CastVote scenario_store (vote_on 1 (PostTarget 1) ''upvote'')) =
     fst (voteService_UpdateKarma voted_store ''post'' 1 1) \<and>
   votes (snd (snd (voteService_CastVote scenario_store (vote_on 1 (PostTarget 1) ''upvote'')))) =
     votes voted_store \<and>
   fst (voteService_ChangeVote orphan_vote_store (vote_on 1 (PostTarget 1) ''downvote'')) =
     fst (voteService_UpdateKarma
            (orphan_vote_store\<lparr>votes := [(vote_on 1 (PostTarget 1) ''downvote'')
                \<lparr>v_ID := 1, v_CreatedAt := 100, v_UpdatedAt := 100\<rparr>]\<rparr>) ''post'' 1 (-2)) \<and>
   fst (voteService_UpdateKarma
          (orphan_vote_store\<lparr>votes := [(vote_on 1 (PostTarget 1) ''downvote'')
              \<lparr>v_ID := 1, v_CreatedAt := 100, v_UpdatedAt := 100\<rparr>]\<rparr>) ''post'' 1 (-2)) =
     Some ''GetPostByID: post not found'' \<and>
   votes (snd (voteService_ChangeVote orphan_vote_store (vote_on 1 (PostTarget 1) ''downvote''))) =
     [(vote_on 1 (PostTarget 1) ''downvote'')\<lparr>v_ID := 1, v_CreatedAt := 100, v_UpdatedAt := 100\<rparr>] \<and>
   fst (RemoveVote_on orphan_vote_store 1 (PostTarget 1)) =
     fst (voteService_UpdateKarma (orphan_vote_store\<lparr>votes := []\<rparr>) ''post'' 1 (-1)) \<and>
   fst (voteService_UpdateKarma (orphan_vote_store\<lparr>votes := []\<rparr>) ''post'' 1 (-1)) =
     Some ''GetPostByID: post not found'' \<and>
   votes (snd (RemoveVote_on orphan_vote_store 1 (PostTarget 1))) = []"
proof -
  let ?vu = "vote_on 1 (PostTarget 1) ''upvote''"
  let ?vd = "vote_on 1 (PostTarget 1) ''downvote''"
  let ?ex = "?vu\<lparr>v_ID := 1, v_CreatedAt := 100, v_UpdatedAt := 100\<rparr>"
  let ?fl = "?vd\<lparr>v_ID := 1, v_CreatedAt := 100, v_UpdatedAt := 100\<rparr>"
  have tu: "vote_target ?vu = Some (PostTarget 1)" and td: "vote_target ?vd = Some (PostTarget 1)"
    by (simp_all add: vote_on_def vote_target_def)
  have e: "target_type (PostTarget 1) = ''post''" "target_id (PostTarget 1) = 1"
    "v_UserID ?vu = 1" "v_UserID ?vd = 1"
    by (simp_all add: target_type_def target_id_def vote_on_def)
  have cast_hyp: "live_votes scenario_store 1 (PostTarget 1) = [] \<and>
      voteRepository_CreateVote scenario_store ?vu = (None, ?ex, voted_store)"
    by (simp add: live_votes_def repo_defs example_defs Let_def)
  have cast_val: "CastVote_delta ?ex = 1" "votes scenario_store @ [?ex] = votes voted_store"
    by (simp_all add: CastVote_delta_def example_defs)
  have change_hyp: "live_votes orphan_vote_store 1 (PostTarget 1) = ?ex # [] \<and>
      check_vote_type (v_VoteType ?vd) \<and> v_VoteType ?ex \<noteq> v_VoteType ?vd"
    by (simp add: live_votes_def example_defs vote_target_def check_vote_type_def)
  have change_val: "ChangeVote_delta ?vd = -2"
    "map (\<lambda>r. if v_ID r = v_ID ?ex
               then r\<lparr>v_VoteType := v_VoteType ?vd, v_UpdatedAt := clock orphan_vote_store\<rparr>
               else r) (votes orphan_vote_store) = [?fl]"
    by (simp_all add: ChangeVote_delta_def example_defs)
  have remove_hyp: "live_votes orphan_vote_store 1 (PostTarget 1) = ?ex # [] \<and>
      PostTarget 1 \<noteq> PostTarget 0"
    using change_hyp by simp
  have remove_val: "RemoveVote_delta ?ex = -1"
    "filter (\<lambda>r. v_ID r \<noteq> v_ID ?ex) (votes orphan_vote_store) = []"
    by (simp_all add: RemoveVote_delta_def example_defs)
  have fails: "fst (voteService_UpdateKarma (orphan_vote_store\<lparr>votes := [?fl]\<rparr>) ''post'' 1 (-2)) =
      Some ''GetPostByID: post not found''"
    "fst (voteService_UpdateKarma (orphan_vote_store\<lparr>votes := []\<rparr>) ''post'' 1 (-1)) =
      Some ''GetPostByID: post not found''"
    by (simp_all add: UpdateKarma_post_result references_post_def example_defs)
  have a: "fst (voteService_CastVote scenario_store ?vu) =
             fst (voteService_UpdateKarma voted_store ''post'' 1 1) \<and>
           votes (snd (snd (voteService_CastVote scenario_store ?vu))) = votes voted_store"
    using vote_write_survives_karma_update [OF tu, of scenario_store ?ex voted_store] cast_hyp
    unfolding e cast_val by blast
  have b: "fst (voteService_ChangeVote orphan_vote_store ?vd) =
             fst (voteService_UpdateKarma (orphan_vote_store\<lparr>votes := [?fl]\<rparr>) ''post'' 1 (-2)) \<and>
           votes (snd (voteService_ChangeVote orphan_vote_store ?vd)) = [?fl]"
    using vote_write_survives_karma_update [OF td, of orphan_vote_store _ _ ?ex "[]"] change_hyp
    unfolding e change_val by blast
  have c: "fst (RemoveVote_on orphan_vote_store 1 (PostTarget 1)) =
             fst (voteService_UpdateKarma (orphan_vote_store\<lparr>votes := []\<rparr>) ''post'' 1 (-1)) \<and>
           votes (snd (RemoveVote_on orphan_vote_store 1 (PostTarget 1))) = []"
    using vote_write_survives_karma_update [OF td, of orphan_vote_store _ _ ?ex "[]"] remove_hyp
    unfolding e remove_val by blast
  from a b c fails show ?thesis by blast
qed

section \<open>ReplyToComment\<close>

lemma GetUserByID_found:
  "references_user s i \<Longrightarrow> \<exists>u. userRepository_GetUserByID s i = Inr u"
  by (auto simp: userRepository_GetUserByID_def references_user_def find_None_list_ex
      split: option.splits)

lemma GetCommentByID_found:
  assumes "commentRepository_GetCommentByID s i = Inr c"
  shows "c_ID c = i" "c \<in> set (comments s)" "references_comment s i"
  using assms
  by (auto simp: commentRepository_GetCommentByID_def references_comment_def list_ex_iff
      split: option.splits dest!: find_SomeD)

lemma GetCommentByID_missing:
  "\<not> references_comment s i \<Longrightarrow>
     commentRepository_GetCommentByID s i = Inl ''GetCommentByID: comment not found''"
  by (simp add: commentRepository_GetCommentByID_def references_comment_def find_None_list_ex[symmetric])

text \<open>
  C8. A reply with content, by an existing author, to parent id \<open>parentID\<close>: if the
  parent comment exists (and its post does), \<open>ReplyToComment\<close> returns no error and
  appends one comment row whose post id is the parent's, whatever post id the caller
  supplied, and whose parent id is the parent's id; the caller's struct gets the
  parent's post id, the new id and the timestamps. If no comment has the id
  \<open>parentID\<close>, it returns the "parent comment does not exist" error and the store is
  unchanged.
\<close>

theorem reply_to_comment:
  assumes content: "c_Content comment \<noteq> []"
    and author: "references_user s (c_AuthorID comment)"
    and pid: "c_ParentID comment = Some parentID"
  shows "(commentRepository_GetCommentByID s parentID = Inr parent \<and>
          references_post s (c_PostID parent) \<longrightarrow>
            commentService_ReplyToComment s comment =
              Returns (None,
                comment\<lparr>c_PostID := c_PostID parent,
                         c_ID := autoincrement (comment_seq s) (map c_ID (comments s)),
                         c_CreatedAt := clock s, c_UpdatedAt := clock s\<rparr>,
                s\<lparr>comments := comments s @
                     [\<lparr>c_ID = autoincrement (comment_seq s) (map c_ID (comments s)),
                       c_Content = c_Content comment, c_AuthorID = c_AuthorID comment,
                       c_PostID = c_PostID parent, c_ParentID = Some (c_ID parent),
                       c_Karma = 0, c_CreatedAt = clock s, c_UpdatedAt = clock s\<rparr>],
                   comment_seq := autoincrement (comment_seq s) (map c_ID (comments s))\<rparr>)) \<and>
         (\<not> references_comment s parentID \<longrightarrow>
            commentService_ReplyToComment s comment =
              Returns (Some ''ReplyToComment: parent comment does not exist'', comment, s))"
proof (intro conjI impI)
  obtain u where u: "userRepository_GetUserByID s (c_AuthorID comment) = Inr u"
    using GetUserByID_found[OF author] by blast
  {
    assume a: "commentRepository_GetCommentByID s parentID = Inr parent \<and>
          references_post s (c_PostID parent)"
    note p = GetCommentByID_found[of s parentID parent]
    have fk: "references_comment s parentID" "c_ID parent = parentID" using a p by simp_all
    show "commentService_ReplyToComment s comment =
              Returns (None,
                comment\<lparr>c_PostID := c_PostID parent,
                         c_ID := autoincrement (comment_seq s) (map c_ID (comments s)),
                         c_CreatedAt := clock s, c_UpdatedAt := clock s\<rparr>,
                s\<lparr>comments := comments s @
                     [\<lparr>c_ID = autoincrement (comment_seq s) (map c_ID (comments s)),
                       c_Content = c_Content comment, c_AuthorID = c_AuthorID comment,
                       c_PostID = c_PostID parent, c_ParentID = Some (c_ID parent),
                       c_Karma = 0, c_CreatedAt = clock s, c_UpdatedAt = clock s\<rparr>],
                   comment_seq := autoincrement (comment_seq s) (map c_ID (comments s))\<rparr>)"
      using content author pid u a fk
      by (simp add: commentService_ReplyToComment_def commentRepository_CreateComment_def
          nullable_def Let_def)
  }
  {
    assume "\<not> references_comment s parentID"
    then show "commentService_ReplyToComment s comment =
              Returns (Some ''ReplyToComment: parent comment does not exist'', comment, s)"
      using content pid u
      by (simp add: commentService_ReplyToComment_def GetCommentByID_missing)
  }
qed

theorem reply_to_comment_witness:
  "commentService_ReplyToComment thread_store
     \<lparr>c_ID = 0, c_Content = ''reply'', c_AuthorID = 2, c_PostID = 7, c_ParentID = Some 2,
      c_Karma = 0, c_CreatedAt = 0, c_UpdatedAt = 0\<rparr> =
     Returns (None,
       \<lparr>c_ID = 4, c_Content = ''reply'', c_AuthorID = 2, c_PostID = 1, c_ParentID = Some 2,
        c_Karma = 0, c_CreatedAt = 300, c_UpdatedAt = 300\<rparr>,
       thread_store\<lparr>comments := comments thread_store @
           [\<lparr>c_ID = 4, c_Content = ''reply'', c_AuthorID = 2, c_PostID = 1, c_ParentID = Some 2,
             c_Karma = 0, c_CreatedAt = 300, c_UpdatedAt = 300\<rparr>],
         comment_seq := 4\<rparr>) \<and>
   commentService_ReplyToComment thread_store
     \<lparr>c_ID = 0, c_Content = ''reply'', c_AuthorID = 2, c_PostID = 1, c_ParentID = Some 9,
      c_Karma = 0, c_CreatedAt = 0, c_UpdatedAt = 0\<rparr> =
     Returns (Some ''ReplyToComment: parent comment does not exist'',
       \<lparr>c_ID = 0, c_Content = ''reply'', c_AuthorID = 2, c_PostID = 1, c_ParentID = Some 9,
        c_Karma = 0, c_CreatedAt = 0, c_UpdatedAt = 0\<rparr>, thread_store)"
proof -
  let ?r = "\<lparr>c_ID = 0, c_Content = ''reply'', c_AuthorID = 2, c_PostID = 7, c_ParentID = Some 2,
      c_Karma = 0, c_CreatedAt = 0, c_UpdatedAt = 0\<rparr>"
  let ?q = "\<lparr>c_ID = 0, c_Content = ''reply'', c_AuthorID = 2, c_PostID = 1, c_ParentID = Some 9,
      c_Karma = 0, c_CreatedAt = 0, c_UpdatedAt = 0\<rparr>"
  have h: "c_Content ?r \<noteq> []" "references_user thread_store (c_AuthorID ?r)"
      "c_ParentID ?r = Some 2"
    and k: "c_Content ?q \<noteq> []" "references_user thread_store (c_AuthorID ?q)"
      "c_ParentID ?q = Some 9"
    by (simp_all add: references_user_def example_defs)
  have parent: "commentRepository_GetCommentByID thread_store 2 = Inr (example_comment 2 (Some 1) 200) \<and>
      references_post thread_store (c_PostID (example_comment 2 (Some 1) 200))"
    by (simp add: commentRepository_GetCommentByID_def references_post_def example_defs)
  have missing: "\<not> references_comment thread_store 9"
    by (simp add: references_comment_def example_defs)
  have vals: "autoincrement (comment_seq thread_store) (map c_ID (comments thread_store)) = 4"
      "clock thread_store = 300" "c_PostID (example_comment 2 (Some 1) 200) = 1"
      "c_ID (example_comment 2 (Some 1) 200) = 2"
    by (simp_all add: autoincrement_def example_defs)
  have a: "commentService_ReplyToComment thread_store ?r =
     Returns (None,
       \<lparr>c_ID = 4, c_Content = ''reply'', c_AuthorID = 2, c_PostID = 1, c_ParentID = Some 2,
        c_Karma = 0, c_CreatedAt = 300, c_UpdatedAt = 300\<rparr>,
       thread_store\<lparr>comments := comments thread_store @
           [\<lparr>c_ID = 4, c_Content = ''reply'', c_AuthorID = 2, c_PostID = 1, c_ParentID = Some 2,
             c_Karma = 0, c_CreatedAt = 300, c_UpdatedAt = 300\<rparr>],
         comment_seq := 4\<rparr>)"
    using reply_to_comment [OF h, of "example_comment 2 (Some 1) 200"] parent
    unfolding vals by simp
  have b: "commentService_ReplyToComment thread_store ?q =
     Returns (Some ''ReplyToComment: parent comment does not exist'', ?q, thread_store)"
    using reply_to_comment [OF k] missing by blast
  from a b show ?thesis by blast
qed

section \<open>SendMessage and ReplyToMessage\<close>

text \<open>\<open>SendMessage\<close> rejects a message to oneself before any lookup or write.\<close>

lemma SendMessage_self_rejected:
  assumes "m_Content message \<noteq> []" "m_SenderID message = m_ReceiverID message"
  shows "messageService_SendMessage s message =
           (Some ''SendMessage: sender and receiver cannot be the same'', message, s)"
  using assms by (simp add: messageService_SendMessage_def)

text \<open>
  A reply that \<open>ReplyToMessage\<close> persists carries the parent's sender as its receiver,
  whatever receiver the caller supplied.
\<close>

lemma ReplyToMessage_receiver:
  assumes "messageService_ReplyToMessage s message = Returns (None, message', s')"
    and "m_ParentID message = Some parentID"
  shows "\<exists>parent. messageRepository_GetMessageByID s parentID = Inr parent \<and>
           m_ReceiverID message' = m_SenderID parent \<and>
           messages s' = messages s @ [message']"
  using assms
  by (auto simp: messageService_ReplyToMessage_def messageRepository_SendMessage_def Let_def
      split: if_splits sum.splits)

text \<open>
  C4. The claim: a reply is checked against the derived receiver, the parent message's
  sender, so that no reply is persisted whose sender equals its stored receiver.
  The code: \<open>ReplyToMessage\<close> compares the sender with the receiver the caller supplied
  and derives the receiver afterwards, without a second comparison. User 1 replying to
  message 1, which user 1 sent, gets a message from user 1 to user 1 persisted; user 2
  replying to message 1 with receiver 2 supplied is rejected, although the derived
  receiver would be user 1.
\<close>

theorem reply_to_own_message_persisted:
  "messageService_ReplyToMessage message_store
     \<lparr>m_ID = 0, m_SenderID = 1, m_ReceiverID = 2, m_Content = ''again'', m_ParentID = Some 1,
      m_CreatedAt = 0, m_UpdatedAt = 0\<rparr> =
     Returns (None,
       \<lparr>m_ID = 3, m_SenderID = 1, m_ReceiverID = 1, m_Content = ''again'', m_ParentID = Some 1,
        m_CreatedAt = 300, m_UpdatedAt = 300\<rparr>,
       message_store\<lparr>messages := messages message_store @
           [\<lparr>m_ID = 3, m_SenderID = 1, m_ReceiverID = 1, m_Content = ''again'',
             m_ParentID = Some 1, m_CreatedAt = 300, m_UpdatedAt = 300\<rparr>],
         message_seq := 3\<rparr>) \<and>
   messageService_ReplyToMessage message_store
     \<lparr>m_ID = 0, m_SenderID = 2, m_ReceiverID = 2, m_Content = ''again'', m_ParentID = Some 1,
      m_CreatedAt = 0, m_UpdatedAt = 0\<rparr> =
     Returns (Some ''ReplyToMessage: sender and receiver cannot be the same'',
       \<lparr>m_ID = 0, m_SenderID = 2, m_ReceiverID = 2, m_Content = ''again'', m_ParentID = Some 1,
        m_CreatedAt = 0, m_UpdatedAt = 0\<rparr>, message_store)"
  by (simp add: messageService_ReplyToMessage_def repo_defs example_defs Let_def)

section \<open>GetReplies\<close>

lemma limit_offset_subset: "set (limit_offset l off xs) \<subseteq> set xs"
  by (auto simp: limit_offset_def Let_def dest: in_set_takeD in_set_dropD)

lemma limit_offset_sorted:
  "sorted (map key xs) \<Longrightarrow> sorted (map key (limit_offset l off xs))"
  by (simp add: limit_offset_def Let_def take_map[symmetric] drop_map[symmetric]
      sorted_wrt_take sorted_wrt_drop)

lemma order_by_asc_window:
  assumes "order_by_asc key (filter P rows) ordered"
  shows "set (limit_offset l off ordered) \<subseteq> {r \<in> set rows. P r}"
    and "sorted (map key (limit_offset l off ordered))"
proof -
  have "mset ordered = mset (filter P rows)"
    using assms by (simp only: order_by_asc_def)
  then have "set ordered = set (filter P rows)"
    by (rule mset_eq_setD)
  then show "set (limit_offset l off ordered) \<subseteq> {r \<in> set rows. P r}"
    using limit_offset_subset[of l off ordered] by auto
  show "sorted (map key (limit_offset l off ordered))"
    using assms by (simp add: order_by_asc_def limit_offset_sorted)
qed

text \<open>
  C9, as claimed, fails: the queries order by \<open>created_at\<close> alone. Comments 2 and 3
  are replies to comment 1 created in the same second; the arrangement 3, 2 is sorted
  on the key, so the call may return it, and it is not in ascending id order. With page
  size 1, the first page under the arrangement 2, 3 and the second page under the
  arrangement 3, 2 both hold comment 2, and comment 3 is on neither.
\<close>

theorem replies_tie_order_not_fixed:
  "commentRepository_GetReplies thread_store 1 10 0
     [example_comment 3 (Some 1) 200, example_comment 2 (Some 1) 200]
     [example_comment 3 (Some 1) 200, example_comment 2 (Some 1) 200] \<and>
   \<not> oldest_first_then_id c_CreatedAt c_ID
       [example_comment 3 (Some 1) 200, example_comment 2 (Some 1) 200] \<and>
   commentRepository_GetReplies thread_store 1 1 0
     [example_comment 2 (Some 1) 200, example_comment 3 (Some 1) 200]
     [example_comment 2 (Some 1) 200] \<and>
   commentRepository_GetReplies thread_store 1 1 1
     [example_comment 3 (Some 1) 200, example_comment 2 (Some 1) 200]
     [example_comment 2 (Some 1) 200]"
  by (simp add: commentRepository_GetReplies_def order_by_asc_def limit_offset_def
      oldest_first_then_id_def example_defs)

text \<open>
  C9, amended. For every parent id, limit and offset, whatever arrangement the engine
  chooses, \<open>GetReplies\<close> for comments and for messages returns only rows of the table
  whose parent id is the given one, in ascending order of creation time.
\<close>

theorem replies_direct_children_oldest_first:
  "(commentRepository_GetReplies s parentID limit offset ordered replies \<longrightarrow>
      (\<forall>c \<in> set replies. c \<in> set (comments s) \<and> c_ParentID c = Some parentID) \<and>
      sorted (map c_CreatedAt replies)) \<and>
   (messageRepository_GetReplies s parentID limit offset ordered' replies' \<longrightarrow>
      (\<forall>m \<in> set replies'. m \<in> set (messages s) \<and> m_ParentID m = Some parentID) \<and>
      sorted (map m_CreatedAt replies'))"
  using order_by_asc_window[of c_CreatedAt "\<lambda>c. c_ParentID c = Some parentID" "comments s" ordered limit offset]
    order_by_asc_window[of m_CreatedAt "\<lambda>m. m_ParentID m = Some parentID" "messages s" ordered' limit offset]
  by (auto simp: commentRepository_GetReplies_def messageRepository_GetReplies_def)

theorem replies_direct_children_oldest_first_witness:
  "commentRepository_GetReplies thread_store 1 1 1
     [example_comment 3 (Some 1) 200, example_comment 2 (Some 1) 200]
     [example_comment 2 (Some 1) 200] \<and>
   list_all (\<lambda>c. c \<in> set (comments thread_store) \<and> c_ParentID c = Some 1)
     [example_comment 2 (Some 1) 200] \<and>
   sorted (map c_CreatedAt [example_comment 2 (Some 1) 200]) \<and>
   messageRepository_GetReplies message_store 1 (-1) 0
     [example_message 2 2 1 (Some 1) 200] [example_message 2 2 1 (Some 1) 200] \<and>
   list_all (\<lambda>m. m \<in> set (messages message_store) \<and> m_ParentID m = Some 1)
     [example_message 2 2 1 (Some 1) 200] \<and>
   sorted (map m_CreatedAt [example_message 2 2 1 (Some 1) 200])"
proof -
  have c: "commentRepository_GetReplies thread_store 1 1 1
     [example_comment 3 (Some 1) 200, example_comment 2 (Some 1) 200]
     [example_comment 2 (Some 1) 200]"
    by (simp add: commentRepository_GetReplies_def order_by_asc_def limit_offset_def example_defs)
  have m: "messageRepository_GetReplies message_store 1 (-1) 0
     [example_message 2 2 1 (Some 1) 200] [example_message 2 2 1 (Some 1) 200]"
    by (simp add: messageRepository_GetReplies_def order_by_asc_def limit_offset_def example_defs)
  show ?thesis
    using replies_direct_children_oldest_first
      [of thread_store 1 1 1 "[example_comment 3 (Some 1) 200, example_comment 2 (Some 1) 200]"
        "[example_comment 2 (Some 1) 200]" "[example_message 2 2 1 (Some 1) 200]"
        "[example_message 2 2 1 (Some 1) 200]"]
      replies_direct_children_oldest_first
      [of message_store 1 "-1" 0 "[]" "[]" "[example_message 2 2 1 (Some 1) 200]"
        "[example_message 2 2 1 (Some 1) 200]"]
      c m
    by (simp add: list_all_iff)
qed

end
